theory Spec2Isabelle
  imports Complex_Main "HOL-Library.Sublist"
begin

section \<open>Strings of the worker\<close>

text \<open>
  A JavaScript string is modelled as a \<^typ>\<open>string\<close>, one \<^typ>\<open>char\<close> per code unit;
  the embedding covers the code units below 256. On those, \<open>String.prototype.trim\<close> and the
  regular-expression class \<open>\s\<close> take the same seven code units as white space, and
  \<open>toLowerCase\<close> moves \<open>A\<close>..\<open>Z\<close> and the accented capitals \<open>0xC0\<close>..\<open>0xDE\<close>
  (but not the multiplication sign \<open>0xD7\<close>) up by 32.
\<close>

definition js_space :: "char \<Rightarrow> bool" where
  "js_space c = (c \<in> {CHR 0x09, CHR 0x0A, CHR 0x0B, CHR 0x0C, CHR 0x0D, CHR 0x20, CHR 0xA0})"

definition trim :: "string \<Rightarrow> string" where
  "trim s = rev (dropWhile js_space (rev (dropWhile js_space s)))"

definition lower_char :: "char \<Rightarrow> char" where
  "lower_char c =
     (let n = (of_char c :: nat)
      in if (65 \<le> n \<and> n \<le> 90) \<or> (192 \<le> n \<and> n \<le> 222 \<and> n \<noteq> 215)
         then char_of (n + 32) else c)"

definition toLowerCase :: "string \<Rightarrow> string" where
  "toLowerCase s = map lower_char s"

text \<open>\<open>includes_str needle s\<close>: the string \<open>s\<close> has \<open>needle\<close> as a contiguous part; this is
  what an unanchored regular expression made of one literal tests.\<close>

fun includes_str :: "string \<Rightarrow> string \<Rightarrow> bool" where
  "includes_str needle [] = (needle = [])"
| "includes_str needle (c # cs) = (prefix needle (c # cs) \<or> includes_str needle cs)"

text \<open>An unanchored alternation of literals \<open>/(k1|k2|...)/.test(s)\<close>.\<close>

definition test_any :: "string list \<Rightarrow> string \<Rightarrow> bool" where
  "test_any keys s = list_ex (\<lambda>k. includes_str k s) keys"

section \<open>Affiliation classifier\<close>

datatype category = Academia | Industry | Other

definition academia_keys :: "string list" where
  "academia_keys =
     [''univ'', ''institute'', ''college'', ''school'', ''laborator'', ''centre'', ''center'']"

definition industry_keys :: "string list" where
  "industry_keys =
     [''inc'', ''corp'', ''labs'', ''technolog'', ''systems'', ''company'', ''ltd'', ''llc'',
      ''google'', ''microsoft'', ''meta'', ''ibm'', ''amazon'', ''nvidia'', ''openai'',
      ''deepmind'']"

text \<open>\<open>categorizeAffiliation(aff?: string | null)\<close>; \<open>None\<close> is \<open>null\<close> or \<open>undefined\<close>,
  and \<open>!aff\<close> also holds of the empty string.\<close>

definition categorizeAffiliation :: "string option \<Rightarrow> category" where
  "categorizeAffiliation aff =
     (case aff of
        None \<Rightarrow> Other
      | Some s \<Rightarrow>
          if s = [] then Other
          else let a = toLowerCase s
               in if test_any academia_keys a then Academia
                  else if test_any industry_keys a then Industry
                  else Other)"

definition category_name :: "category \<Rightarrow> string" where
  "category_name c = (case c of Academia \<Rightarrow> ''Academia'' | Industry \<Rightarrow> ''Industry'' | Other \<Rightarrow> ''Other'')"

section \<open>JavaScript values\<close>

text \<open>
  The values \<open>JSON.parse\<close> returns, and \<open>undefined\<close>, which a read of a missing property
  gives. Numbers are exact rationals: the embedding leaves the rounding of IEEE doubles out.
  An object is the list of its own properties, each key once.
\<close>

datatype jsval =
    JUndefined
  | JNull
  | JBool bool
  | JNum rat
  | JStr string
  | JArr "jsval list"
  | JObj "(string \<times> jsval) list"

text \<open>\<open>truthy v\<close>: what \<open>v || d\<close>, \<open>v ? a : b\<close> and \<open>!v\<close> test.\<close>

fun truthy :: "jsval \<Rightarrow> bool" where
  "truthy JUndefined = False"
| "truthy JNull = False"
| "truthy (JBool b) = b"
| "truthy (JNum n) = (n \<noteq> 0)"
| "truthy (JStr s) = (s \<noteq> [])"
| "truthy (JArr xs) = True"
| "truthy (JObj kvs) = True"

text \<open>\<open>a || b\<close> on values.\<close>

definition or_else :: "jsval \<Rightarrow> jsval \<Rightarrow> jsval" where
  "or_else a b = (if truthy a then a else b)"

text \<open>
  \<open>get_prop v k\<close> is the read \<open>v.k\<close>: a \<open>TypeError\<close> (\<open>None\<close>) on \<open>null\<close> and
  \<open>undefined\<close>, the own property of an object, the \<open>length\<close> of an array or a string,
  and \<open>undefined\<close> otherwise. The worker reads only the keys of its summary schema, the
  keys \<open>candidates\<close>, \<open>content\<close>, \<open>parts\<close> and \<open>text\<close> of the model's reply, and
  \<open>name\<close>, \<open>affiliation\<close>, \<open>category\<close> and \<open>length\<close>, none of which a prototype supplies
  except \<open>length\<close>.
\<close>

fun get_prop :: "jsval \<Rightarrow> string \<Rightarrow> jsval option" where
  "get_prop JUndefined k = None"
| "get_prop JNull k = None"
| "get_prop (JObj kvs) k = Some (case map_of kvs k of Some v \<Rightarrow> v | None \<Rightarrow> JUndefined)"
| "get_prop (JArr xs) k = Some (if k = ''length'' then JNum (of_nat (length xs)) else JUndefined)"
| "get_prop (JStr s) k = Some (if k = ''length'' then JNum (of_nat (length s)) else JUndefined)"
| "get_prop (JBool b) k = Some JUndefined"
| "get_prop (JNum n) k = Some JUndefined"

text \<open>\<open>opt_prop v k\<close> is the optional chain \<open>v?.k\<close>, which gives \<open>undefined\<close> where
  \<open>v.k\<close> would throw.\<close>

definition opt_prop :: "jsval \<Rightarrow> string \<Rightarrow> jsval" where
  "opt_prop v k = (case get_prop v k of None \<Rightarrow> JUndefined | Some x \<Rightarrow> x)"

text \<open>\<open>Array.isArray(v) ? v : []\<close>.\<close>

fun array_or_empty :: "jsval \<Rightarrow> jsval list" where
  "array_or_empty (JArr xs) = xs"
| "array_or_empty v = []"

text \<open>\<open>typeof v === 'number' ? v : null\<close>.\<close>

fun number_or_null :: "jsval \<Rightarrow> rat option" where
  "number_or_null (JNum n) = Some n"
| "number_or_null v = None"

text \<open>\<open>Math.round\<close>: the nearest integer, a tie going up.\<close>

definition Math_round :: "rat \<Rightarrow> int" where
  "Math_round x = \<lfloor>x + 1 / 2\<rfloor>"

section \<open>Collaboration type\<close>

text \<open>
  One \<open>{ name, affiliation, category }\<close> object for each author, as the metadata fetcher
  builds it and as the summary carries it. \<open>inferCollabType\<close> reads nothing but the
  \<open>category\<close> of its elements, compared with \<open>===\<close> to a string.
\<close>

record author_aff =
  name :: jsval
  affiliation :: jsval
  category :: jsval

datatype collab = Academia_only | Industry_only | Academia_Industry | Unknown

definition collab_name :: "collab \<Rightarrow> string" where
  "collab_name c =
     (case c of Academia_only \<Rightarrow> ''Academia-only'' | Industry_only \<Rightarrow> ''Industry-only''
      | Academia_Industry \<Rightarrow> ''Academia-Industry'' | Unknown \<Rightarrow> ''Unknown'')"

definition inferCollabType :: "author_aff list \<Rightarrow> collab" where
  "inferCollabType l =
     (if l = [] then Unknown
      else let hasAcad = list_ex (\<lambda>a. category a = JStr ''Academia'') l;
               hasInd = list_ex (\<lambda>a. category a = JStr ''Industry'') l
           in if hasAcad \<and> hasInd then Academia_Industry
              else if hasAcad then Academia_only
              else if hasInd then Industry_only
              else Unknown)"

text \<open>The object the fetcher pushes for an author of the Atom feed.\<close>

definition classified :: "string \<Rightarrow> string option \<Rightarrow> author_aff" where
  "classified n aff =
     \<lparr> name = JStr n,
       affiliation = (case aff of None \<Rightarrow> JNull | Some a \<Rightarrow> JStr a),
       category = JStr (category_name (categorizeAffiliation aff)) \<rparr>"

section \<open>Paper references and URLs\<close>

text \<open>
  \<open>new URL(s)\<close> belongs to the platform. The worker reads two fields of the object it
  returns; a \<open>TypeError\<close> thrown for a text that is no absolute URL is \<open>None\<close>. Every
  function below that parses takes the parser as its first argument, and what is proved
  of it for an arbitrary parser holds of the platform's.
\<close>

record url =
  hostname :: string
  pathname :: string

type_synonym url_parser = "string \<Rightarrow> url option"

text \<open>\<open>s.split(d)\<close> for a one-character separator: the pieces between the separators,
  one piece more than there are separators.\<close>

fun split_on :: "char \<Rightarrow> string \<Rightarrow> string list" where
  "split_on d [] = [[]]"
| "split_on d (c # cs) =
     (if c = d then [] # split_on d cs
      else (case split_on d cs of [] \<Rightarrow> [[c]] | p # ps \<Rightarrow> (c # p) # ps))"

text \<open>\<open>u.pathname.split('/').filter(Boolean)\<close>: the non-empty segments of the path.\<close>

definition pathParts :: "url \<Rightarrow> string list" where
  "pathParts u = filter (\<lambda>p. p \<noteq> []) (split_on CHR ''/'' (pathname u))"

text \<open>\<open>s.replace(/\.pdf$/i, '')\<close>: one final \<open>.pdf\<close>, in any case of the letters, is
  cut off.\<close>

definition strip_pdf :: "string \<Rightarrow> string" where
  "strip_pdf s =
     (if suffix ''.pdf'' (toLowerCase s) then take (length s - 4) s else s)"

text \<open>\<open>xs[i]\<close>, which is \<open>undefined\<close> (\<open>None\<close>) out of range; \<open>present\<close> is its
  truthiness and \<open>text_of\<close> the string it holds.\<close>

definition elem_at :: "'a list \<Rightarrow> nat \<Rightarrow> 'a option" where
  "elem_at xs i = (if i < length xs then Some (xs ! i) else None)"

fun present :: "string option \<Rightarrow> bool" where
  "present None = False"
| "present (Some s) = (s \<noteq> [])"

fun text_of :: "string option \<Rightarrow> string" where
  "text_of None = []"
| "text_of (Some s) = s"

definition normalizePaperInput :: "url_parser \<Rightarrow> string \<Rightarrow> string" where
  "normalizePaperInput newURL input0 =
     (let input = trim input0
      in case newURL input of
           None \<Rightarrow> ''https://arxiv.org/abs/'' @ input
         | Some u \<Rightarrow>
             if hostname u = ''arxiv.org'' then
               (let parts = pathParts u
                in if elem_at parts 0 = Some ''abs'' \<and> present (elem_at parts 1) then input
                   else if elem_at parts 0 = Some ''pdf'' \<and> present (elem_at parts 1)
                     then ''https://arxiv.org/abs/'' @ strip_pdf (text_of (elem_at parts 1))
                   else if length parts = 1
                     then ''https://arxiv.org/abs/'' @ strip_pdf (text_of (elem_at parts 0))
                   else input)
             else ''https://web.archive.org/web/2/'' @ input)"

text \<open>\<open>extractArxivId\<close>: the last non-empty segment of the path of an URL whose host ends
  in \<open>arxiv.org\<close>, without a final \<open>.pdf\<close>; \<open>null\<close> when that is empty, when the host is
  another or when the text is no URL.\<close>

definition extractArxivId :: "url_parser \<Rightarrow> string \<Rightarrow> string option" where
  "extractArxivId newURL input =
     (case newURL input of
        None \<Rightarrow> None
      | Some u \<Rightarrow>
          if \<not> suffix ''arxiv.org'' (hostname u) then None
          else let parts = pathParts u;
                   lst = strip_pdf (if parts = [] then [] else last parts)
               in if lst = [] then None else Some lst)"

subsection \<open>The platform's parser on plain web addresses\<close>

text \<open>
  \<open>newURL_http\<close> follows the URL Standard's parser on the references met in practice and
  is used for the concrete evaluations of this theory. It is exact in refusing a text with
  no scheme (there is no base URL): a scheme is a letter, then letters, digits, \<open>+\<close>,
  \<open>-\<close> and \<open>.\<close>, then a colon. Of the texts with a scheme it accepts those with scheme
  \<open>http\<close> or \<open>https\<close>, a host of dot-separated labels of letters, digits and hyphens whose
  last label is alphabetic (no credentials, no port, no punycode label), and a path of
  characters that the parser neither escapes nor rewrites, without \<open>.\<close> or \<open>..\<close>
  segments; there it returns the lower-cased host and the path as written (\<open>/\<close> when
  there is none). Any other text with a scheme lies outside it and is answered \<open>None\<close>.
\<close>

definition c0_or_space :: "char \<Rightarrow> bool" where
  "c0_or_space c = ((of_char c :: nat) \<le> 32)"

definition url_preprocess :: "string \<Rightarrow> string" where
  "url_preprocess s =
     filter (\<lambda>c. c \<notin> {CHR 0x09, CHR 0x0A, CHR 0x0D})
       (rev (dropWhile c0_or_space (rev (dropWhile c0_or_space s))))"

definition is_alpha :: "char \<Rightarrow> bool" where
  "is_alpha c = (let n = (of_char c :: nat) in (65 \<le> n \<and> n \<le> 90) \<or> (97 \<le> n \<and> n \<le> 122))"

definition is_digit :: "char \<Rightarrow> bool" where
  "is_digit c = (let n = (of_char c :: nat) in 48 \<le> n \<and> n \<le> 57)"

definition scheme_char :: "char \<Rightarrow> bool" where
  "scheme_char c = (is_alpha c \<or> is_digit c \<or> c \<in> {CHR ''+'', CHR ''-'', CHR ''.''})"

definition scheme_of :: "string \<Rightarrow> (string \<times> string) option" where
  "scheme_of s =
     (case s of
        [] \<Rightarrow> None
      | c # cs \<Rightarrow>
          if is_alpha c then
            (case dropWhile scheme_char s of
               [] \<Rightarrow> None
             | d # r \<Rightarrow> if d = CHR '':'' then Some (toLowerCase (takeWhile scheme_char s), r)
                        else None)
          else None)"

definition host_label :: "string \<Rightarrow> bool" where
  "host_label l =
     (l \<noteq> [] \<and> list_all (\<lambda>c. is_alpha c \<or> is_digit c \<or> c = CHR ''-'') l
      \<and> \<not> prefix ''xn--'' (toLowerCase l))"

definition plain_host :: "string \<Rightarrow> bool" where
  "plain_host h =
     (let labels = split_on CHR ''.'' h
      in list_all host_label labels \<and> list_all is_alpha (last labels))"

definition path_char :: "char \<Rightarrow> bool" where
  "path_char c = (is_alpha c \<or> is_digit c \<or> c \<in> set ''-._~!$&()*+,;=:@/%'')"

definition dot_segment :: "string \<Rightarrow> bool" where
  "dot_segment g = (toLowerCase g \<in> {''.'', ''..'', ''%2e'', ''.%2e'', ''%2e.'', ''%2e%2e''})"

definition plain_path :: "string \<Rightarrow> bool" where
  "plain_path p =
     (list_all path_char p \<and> \<not> list_ex dot_segment (split_on CHR ''/'' p))"

definition newURL_http :: url_parser where
  "newURL_http s =
     (case scheme_of (url_preprocess s) of
        None \<Rightarrow> None
      | Some (scheme, r) \<Rightarrow>
          if scheme \<noteq> ''http'' \<and> scheme \<noteq> ''https'' then None
          else let r1 = dropWhile (\<lambda>c. c = CHR ''/'') r;
                   stop = (\<lambda>c. c \<in> {CHR ''/'', CHR ''?'', CHR ''#''});
                   host = takeWhile (\<lambda>c. \<not> stop c) r1;
                   path = takeWhile (\<lambda>c. c \<notin> {CHR ''?'', CHR ''#''})
                            (dropWhile (\<lambda>c. \<not> stop c) r1)
               in if plain_host host \<and> plain_path path
                  then Some \<lparr> hostname = toLowerCase host,
                              pathname = (if path = [] then ''/'' else path) \<rparr>
                  else None)"

section \<open>Fetched metadata\<close>

text \<open>\<open>ArxivMeta\<close>. The fields \<open>id\<close>, \<open>title\<close>, \<open>abstract\<close> and \<open>authors\<close> carry the
  suffix \<open>_m\<close> here; \<open>None\<close> is \<open>null\<close>.\<close>

record ArxivMeta =
  id_m :: "string option"
  title_m :: "string option"
  abstract_m :: "string option"
  authors_m :: "string list"
  absUrl :: "string option"
  pdfUrl :: "string option"
  authorsDetailed :: "author_aff list"
  codeLinks :: "string list"
  videoLinks :: "string list"
  modelLinks :: "string list"

text \<open>A \<open>string | null\<close> as a value.\<close>

definition js_opt :: "string option \<Rightarrow> jsval" where
  "js_opt x = (case x of None \<Rightarrow> JNull | Some s \<Rightarrow> JStr s)"

section \<open>The structured summary\<close>

text \<open>
  \<open>StructuredSummary\<close>, the object the resolver returns. The parsed reply of the model is
  untyped, so a field holds whatever value the code puts there; \<open>JUndefined\<close> is a field
  that is absent from the object or set to \<open>undefined\<close> (\<open>JSON.stringify\<close> drops both).
  Of \<open>affiliation_breakdown\<close> the three declared properties are kept. The field
  \<open>notes\<close> is \<open>notes_s\<close> here.
\<close>

record resources =
  code :: "jsval list"
  video :: "jsval list"
  checkpoints :: "jsval list"

record breakdown =
  count_Academia :: jsval
  count_Industry :: jsval
  count_Other :: jsval

record StructuredSummary =
  title :: jsval
  arxiv_id :: jsval
  arxiv_abs_url :: jsval
  arxiv_pdf_url :: jsval
  one_liner :: jsval
  simplified_summary :: jsval
  practical_problem :: jsval
  problems_solved :: jsval
  key_innovations :: jsval
  impact_potential :: jsval
  use_cases :: jsval
  benchmarks :: jsval
  collaboration_type :: jsval
  takeaways :: jsval
  notes_s :: jsval
  resources :: resources
  reliability_score :: jsval
  applicability_score :: jsval
  overall_score :: jsval
  total_authors :: jsval
  authors :: jsval
  authors_affiliations :: "author_aff list"
  affiliation_breakdown :: breakdown

text \<open>
  The \<open>reduce\<close> that counts the authors by category starts from
  \<open>{ Academia: 0, Industry: 0, Other: 0 }\<close> and adds one at the property key of each
  author's category. \<open>key_is k v\<close>: the property key of the value \<open>v\<close> is the name \<open>k\<close>,
  for \<open>k\<close> one of the three names; a string is its own key, and an array of one element
  has the key of that element.
\<close>

fun key_is :: "string \<Rightarrow> jsval \<Rightarrow> bool" where
  "key_is k (JStr s) = (s = k)"
| "key_is k (JArr [x]) = key_is k x"
| "key_is k v = False"

definition count_key :: "string \<Rightarrow> author_aff list \<Rightarrow> jsval" where
  "count_key k l = JNum (of_nat (length (filter (\<lambda>a. key_is k (category a)) l)))"

definition count_categories :: "author_aff list \<Rightarrow> breakdown" where
  "count_categories l =
     \<lparr> count_Academia = count_key ''Academia'' l,
       count_Industry = count_key ''Industry'' l,
       count_Other = count_key ''Other'' l \<rparr>"

subsection \<open>The text handed to the JSON parser\<close>

text \<open>
  \<open>/```json\s*([\s\S]*?)\s*```/i\<close> and \<open>/```\s*([\s\S]*?)\s*```/i\<close>. A match begins at
  the leftmost opener after which a closing fence follows. The greedy \<open>\s*\<close> takes all the
  white space after the opener (a shorter choice would not help: white space holds no
  backquote), and the lazy group is the shortest text after which white space and the
  closing fence follow. \<open>lazy_to_fence\<close> is that group, \<open>match_fence\<close> the search for the
  opener, given in lower case.
\<close>

fun lazy_to_fence :: "string \<Rightarrow> string option" where
  "lazy_to_fence [] = None"
| "lazy_to_fence (c # cs) =
     (if prefix ''```'' (dropWhile js_space (c # cs)) then Some []
      else map_option ((#) c) (lazy_to_fence cs))"

fun match_fence :: "string \<Rightarrow> string \<Rightarrow> string option" where
  "match_fence opener [] = None"
| "match_fence opener (c # cs) =
     (if prefix opener (toLowerCase (c # cs)) then
        (case lazy_to_fence (dropWhile js_space (drop (length opener) (c # cs))) of
           Some g \<Rightarrow> Some g
         | None \<Rightarrow> match_fence opener cs)
      else match_fence opener cs)"

definition extractJsonStr :: "string \<Rightarrow> string" where
  "extractJsonStr txt =
     (let jsonStr = trim txt;
          fenced = (case match_fence ''```json'' jsonStr of
                      Some g \<Rightarrow> Some g
                    | None \<Rightarrow> match_fence ''```'' jsonStr)
      in case fenced of Some g \<Rightarrow> trim g | None \<Rightarrow> jsonStr)"

subsection \<open>The summary of a parsed reply\<close>

text \<open>The elements of \<open>parsed.authors_affiliations\<close>, mapped to
  \<open>{ name: a.name, affiliation: a.affiliation, category: a.category }\<close>; the read of
  \<open>a.name\<close> throws on a \<open>null\<close> element.\<close>

definition to_aff :: "jsval \<Rightarrow> author_aff option" where
  "to_aff a =
     (case get_prop a ''name'' of
        None \<Rightarrow> None
      | Some n \<Rightarrow> Some \<lparr> name = n, affiliation = opt_prop a ''affiliation'',
                         category = opt_prop a ''category'' \<rparr>)"

definition affs_of :: "jsval \<Rightarrow> author_aff list option" where
  "affs_of v = (case v of JArr xs \<Rightarrow> those (map to_aff xs) | _ \<Rightarrow> Some [])"

text \<open>\<open>rel ?? undefined\<close>.\<close>

definition num_or_undefined :: "rat option \<Rightarrow> jsval" where
  "num_or_undefined x = (case x of None \<Rightarrow> JUndefined | Some n \<Rightarrow> JNum n)"

text \<open>
  The body of the \<open>try\<close> block after \<open>JSON.parse\<close>; \<open>None\<close> is an exception thrown in it.
  There are two places that can throw: the first read of a property of \<open>parsed\<close>, when
  \<open>parsed\<close> is \<open>null\<close>, and the mapping of \<open>authors_affiliations\<close>.
\<close>

definition fromParsed :: "ArxivMeta \<Rightarrow> jsval \<Rightarrow> StructuredSummary option" where
  "fromParsed paperMeta parsed =
     (case get_prop parsed ''reliability_score'' of
        None \<Rightarrow> None
      | Some r \<Rightarrow>
          let rel = number_or_null r;
              app = number_or_null (opt_prop parsed ''applicability_score'');
              overall =
                (case number_or_null (opt_prop parsed ''overall_score'') of
                   Some n \<Rightarrow> Some n
                 | None \<Rightarrow>
                     (case (rel, app) of
                        (Some x, Some y) \<Rightarrow> Some (of_int (Math_round (x * (6 / 10) + y * (4 / 10))))
                      | _ \<Rightarrow> None))
          in case affs_of (opt_prop parsed ''authors_affiliations'') of
               None \<Rightarrow> None
             | Some affs \<Rightarrow>
                 Some
                   \<lparr> title = or_else (opt_prop parsed ''title'') (or_else (js_opt (title_m paperMeta)) JUndefined),
                     arxiv_id = or_else (opt_prop parsed ''arxiv_id'') (or_else (js_opt (id_m paperMeta)) JUndefined),
                     arxiv_abs_url = or_else (opt_prop parsed ''arxiv_abs_url'') (or_else (js_opt (absUrl paperMeta)) JUndefined),
                     arxiv_pdf_url = or_else (opt_prop parsed ''arxiv_pdf_url'') (or_else (js_opt (pdfUrl paperMeta)) JUndefined),
                     one_liner = or_else (opt_prop parsed ''one_liner'') (JStr []),
                     simplified_summary = or_else (opt_prop parsed ''simplified_summary'') JUndefined,
                     practical_problem = or_else (opt_prop parsed ''practical_problem'') JUndefined,
                     problems_solved = JArr (array_or_empty (opt_prop parsed ''problems_solved'')),
                     key_innovations = JArr (array_or_empty (opt_prop parsed ''key_innovations'')),
                     impact_potential = JArr (array_or_empty (opt_prop parsed ''impact_potential'')),
                     use_cases = JArr (array_or_empty (opt_prop parsed ''use_cases'')),
                     benchmarks = JArr (array_or_empty (opt_prop parsed ''benchmarks'')),
                     collaboration_type =
                       or_else (opt_prop parsed ''collaboration_type'')
                         (JStr (collab_name (inferCollabType affs))),
                     takeaways = JArr (array_or_empty (opt_prop parsed ''takeaways'')),
                     notes_s = JArr (array_or_empty (opt_prop parsed ''notes'')),
                     resources =
                       \<lparr> code = array_or_empty (opt_prop (opt_prop parsed ''resources'') ''code''),
                         video = array_or_empty (opt_prop (opt_prop parsed ''resources'') ''video''),
                         checkpoints =
                           array_or_empty (opt_prop (opt_prop parsed ''resources'') ''checkpoints'') \<rparr>,
                     reliability_score = num_or_undefined rel,
                     applicability_score = num_or_undefined app,
                     overall_score = num_or_undefined overall,
                     total_authors =
                       or_else (opt_prop parsed ''total_authors'')
                         (if truthy (opt_prop parsed ''authors'')
                          then opt_prop (opt_prop parsed ''authors'') ''length''
                          else JNum 0),
                     authors = JArr (array_or_empty (opt_prop parsed ''authors'')),
                     authors_affiliations = affs,
                     affiliation_breakdown =
                       (let given = opt_prop parsed ''affiliation_breakdown''
                        in if truthy given
                           then \<lparr> count_Academia = opt_prop given ''Academia'',
                                  count_Industry = opt_prop given ''Industry'',
                                  count_Other = opt_prop given ''Other'' \<rparr>
                           else count_categories affs) \<rparr>)"

text \<open>The \<open>catch\<close> block: the summary built from the fetched metadata alone.\<close>

definition fallback :: "ArxivMeta \<Rightarrow> StructuredSummary" where
  "fallback paperMeta =
     \<lparr> title = or_else (js_opt (title_m paperMeta)) JUndefined,
       arxiv_id = or_else (js_opt (id_m paperMeta)) JUndefined,
       arxiv_abs_url = or_else (js_opt (absUrl paperMeta)) JUndefined,
       arxiv_pdf_url = or_else (js_opt (pdfUrl paperMeta)) JUndefined,
       one_liner = JStr ''Summary generation failed, but paper metadata was retrieved.'',
       simplified_summary = JUndefined,
       practical_problem = JUndefined,
       problems_solved = JArr [],
       key_innovations = JArr [],
       impact_potential = JUndefined,
       use_cases = JUndefined,
       benchmarks = JArr [],
       collaboration_type = JStr (collab_name (inferCollabType (authorsDetailed paperMeta))),
       takeaways = JArr [],
       notes_s = JArr [JStr ''Summary generation failed - please try again''],
       resources =
         \<lparr> code = map JStr (codeLinks paperMeta),
           video = map JStr (videoLinks paperMeta),
           checkpoints = map JStr (modelLinks paperMeta) \<rparr>,
       reliability_score = JUndefined,
       applicability_score = JUndefined,
       overall_score = JUndefined,
       total_authors = JNum (of_nat (length (authors_m paperMeta))),
       authors = JArr (map JStr (authors_m paperMeta)),
       authors_affiliations = authorsDetailed paperMeta,
       affiliation_breakdown = count_categories (authorsDetailed paperMeta) \<rparr>"

text \<open>
  From the text of the model's reply to the summary: the \<open>try\<close> and its \<open>catch\<close>.
  \<open>JSON.parse\<close> belongs to the platform and is an argument; \<open>None\<close> is its
  \<open>SyntaxError\<close>.
\<close>

type_synonym json_parser = "string \<Rightarrow> jsval option"

definition summarizeText :: "json_parser \<Rightarrow> ArxivMeta \<Rightarrow> string \<Rightarrow> StructuredSummary" where
  "summarizeText JSON_parse paperMeta txt =
     (case JSON_parse (extractJsonStr txt) of
        None \<Rightarrow> fallback paperMeta
      | Some parsed \<Rightarrow>
          (case fromParsed paperMeta parsed of
             None \<Rightarrow> fallback paperMeta
           | Some s \<Rightarrow> s))"

section \<open>Matching the worker's regular expressions\<close>

text \<open>
  The patterns of the metadata fetcher are chains of literals, read without regard to the
  case of letters, with lazy gaps between them and, in places, a run of characters other
  than one delimiter. \<open>cut_ci p s\<close> splits \<open>s\<close> at the leftmost place where the literal
  \<open>p\<close> (given in lower case) stands: the text before it and the text after it. A lazy gap
  \<open>[\s\S]*?\<close> before a literal ends at the leftmost occurrence of the literal; when the
  rest of the pattern fails there it fails after every later occurrence too, unless noted.
\<close>

definition ci_prefix :: "string \<Rightarrow> string \<Rightarrow> bool" where
  "ci_prefix p s = prefix p (toLowerCase s)"

fun cut_ci :: "string \<Rightarrow> string \<Rightarrow> (string \<times> string) option" where
  "cut_ci p [] = (if p = [] then Some ([], []) else None)"
| "cut_ci p (c # cs) =
     (if ci_prefix p (c # cs) then Some ([], drop (length p) (c # cs))
      else map_option (\<lambda>(a, b). (c # a, b)) (cut_ci p cs))"

lemma cut_ci_length:
  "cut_ci p s = Some (a, b) \<Longrightarrow> length a + length p + length b = length s"
proof (induction s arbitrary: a b)
  case Nil
  then show ?case by (simp split: if_splits)
next
  case (Cons c cs)
  show ?case
  proof (cases "ci_prefix p (c # cs)")
    case True
    then have "length p \<le> length (c # cs)"
      unfolding ci_prefix_def toLowerCase_def using prefix_length_le by fastforce
    with True Cons.prems show ?thesis by auto
  next
    case False
    with Cons.prems obtain a' where "cut_ci p cs = Some (a', b)" and "a = c # a'"
      by (auto split: prod.splits)
    with Cons.IH [of a' b] show ?thesis by simp
  qed
qed

text \<open>\<open>s.replace(/\s+/g, ' ').trim()\<close>.\<close>

function collapse_ws :: "string \<Rightarrow> string" where
  "collapse_ws [] = []"
| "collapse_ws (c # cs) =
     (if js_space c then CHR '' '' # collapse_ws (dropWhile js_space cs)
      else c # collapse_ws cs)"
  by pat_completeness auto
termination
  by (relation "measure length") (auto simp: length_dropWhile_le less_Suc_eq_le)

definition clean :: "string \<Rightarrow> string" where
  "clean s = trim (collapse_ws s)"

text \<open>\<open>s.match(/<tag>([\s\S]*?)<\/tag>/i)\<close>: the group, or \<open>None\<close> for no match.\<close>

definition tag_text :: "string \<Rightarrow> string \<Rightarrow> string \<Rightarrow> string option" where
  "tag_text opener closer s =
     (case cut_ci opener s of
        None \<Rightarrow> None
      | Some (_, r) \<Rightarrow> map_option fst (cut_ci closer r))"

text \<open>The character after which a run \<open>[^>]*\<close> followed by \<open>>\<close> ends: the text after the
  first \<open>>\<close>.\<close>

definition after_gt :: "string \<Rightarrow> string option" where
  "after_gt r = (case dropWhile (\<lambda>c. c \<noteq> CHR ''>'') r of [] \<Rightarrow> None | _ # r' \<Rightarrow> Some r')"

subsection \<open>The Atom feed\<close>

text \<open>\<open>/<entry>[\s\S]*?<title>([\s\S]*?)<\/title>/i\<close>.\<close>

definition atom_title :: "string \<Rightarrow> string option" where
  "atom_title xml =
     (case cut_ci ''<entry>'' xml of
        None \<Rightarrow> None
      | Some (_, r) \<Rightarrow> tag_text ''<title>'' ''</title>'' r)"

text \<open>\<open>[...xml.matchAll(/<author>([\s\S]*?)<\/author>/gi)]\<close>: the groups, each search
  starting where the match before ended.\<close>

function author_blocks :: "string \<Rightarrow> string list" where
  "author_blocks s =
     (case cut_ci ''<author>'' s of
        None \<Rightarrow> []
      | Some (_, r) \<Rightarrow>
          (case cut_ci ''</author>'' r of
             None \<Rightarrow> []
           | Some (g, rest) \<Rightarrow> g # author_blocks rest))"
  by pat_completeness auto
termination
proof (relation "measure length")
  show "wf (measure length)" by simp
next
  fix s :: string and x2 x y r x2a g rest
  assume "cut_ci ''<author>'' s = Some x2" and "(x, y) = x2"
    and "cut_ci ''</author>'' y = Some x2a" and "(g, rest) = x2a"
  then have "cut_ci ''<author>'' s = Some (x, y)" and "cut_ci ''</author>'' y = Some (g, rest)"
    by simp_all
  from cut_ci_length [OF this(1)] cut_ci_length [OF this(2)]
  show "(rest, s) \<in> measure length" by simp
qed

text \<open>\<open>/<arxiv:affiliation[^>]*>([\s\S]*?)<\/arxiv:affiliation>/i\<close>.\<close>

definition affiliation_text :: "string \<Rightarrow> string option" where
  "affiliation_text raw =
     (case cut_ci ''<arxiv:affiliation'' raw of
        None \<Rightarrow> None
      | Some (_, r) \<Rightarrow>
          (case after_gt r of
             None \<Rightarrow> None
           | Some r' \<Rightarrow> map_option fst (cut_ci ''</arxiv:affiliation>'' r')))"

text \<open>The body of \<open>authorBlocks.forEach\<close>: an author is kept when the block has a name
  that is not empty once cleaned.\<close>

definition author_of_block :: "string \<Rightarrow> (string \<times> string option) option" where
  "author_of_block raw =
     (case map_option clean (tag_text ''<name>'' ''</name>'' raw) of
        None \<Rightarrow> None
      | Some n \<Rightarrow>
          if n = [] then None
          else Some (n, map_option clean (affiliation_text raw)))"

subsection \<open>The abstract page\<close>

definition dq :: char where
  "dq = CHR 0x22"

text \<open>The characters that \<open>.\<close> does not match.\<close>

definition line_term :: "char \<Rightarrow> bool" where
  "line_term c = (c = CHR 0x0A \<or> c = CHR 0x0D)"

text \<open>\<open>s.replace(/<[^>]+>/g, '')\<close>: a \<open><\<close>, at least one character that is no \<open>>\<close>, and
  the \<open>>\<close> that follows are removed, from left to right.\<close>

function strip_tags :: "string \<Rightarrow> string" where
  "strip_tags [] = []"
| "strip_tags (c # cs) =
     (if c = CHR ''<'' \<and> takeWhile (\<lambda>x. x \<noteq> CHR ''>'') cs \<noteq> []
         \<and> dropWhile (\<lambda>x. x \<noteq> CHR ''>'') cs \<noteq> []
      then strip_tags (tl (dropWhile (\<lambda>x. x \<noteq> CHR ''>'') cs))
      else c # strip_tags cs)"
  by pat_completeness auto
termination
proof (relation "measure length")
  show "wf (measure length)" by simp
next
  fix c :: char and cs :: string
  have "length (tl (dropWhile (\<lambda>x. x \<noteq> CHR ''>'') cs)) \<le> length cs"
    using length_dropWhile_le [of "\<lambda>x. x \<noteq> CHR ''>''" cs] by simp
  then show "(tl (dropWhile (\<lambda>x. x \<noteq> CHR ''>'') cs), c # cs) \<in> measure length"
    by simp
next
  fix c :: char and cs :: string
  show "(cs, c # cs) \<in> measure length" by simp
qed

definition clean_html :: "string \<Rightarrow> string" where
  "clean_html s = clean (strip_tags s)"

text \<open>
  The tail \<open><span[^>]*>.*?<\/span>\<close> and then a group up to a closing literal, read from
  just after \<open><span\<close>: the tag ends at the first \<open>>\<close>, the span's text runs to the first
  \<open></span>\<close> and must hold no line terminator, and the group runs to the first
  occurrence of the closing literal. In the title pattern \<open>\s*\<close> stands before the group.
\<close>

definition span_then :: "bool \<Rightarrow> string \<Rightarrow> string \<Rightarrow> string option" where
  "span_then skip closer r =
     (case after_gt r of
        None \<Rightarrow> None
      | Some r1 \<Rightarrow>
          (case cut_ci ''</span>'' r1 of
             None \<Rightarrow> None
           | Some (inner, r2) \<Rightarrow>
               if list_ex line_term inner then None
               else map_option fst (cut_ci closer (if skip then dropWhile js_space r2 else r2))))"

text \<open>\<open>/<h1 class="title">[\s\S]*?<span[^>]*>.*?<\/span>\s*([\s\S]*?)<\/h1>/i\<close>. After the
  leftmost heading the lazy gap tries each \<open><span\<close> in turn.\<close>

fun title_spans :: "string \<Rightarrow> string option" where
  "title_spans [] = None"
| "title_spans (c # cs) =
     (if ci_prefix ''<span'' (c # cs) then
        (case span_then True ''</h1>'' (drop 5 (c # cs)) of
           Some g \<Rightarrow> Some g
         | None \<Rightarrow> title_spans cs)
      else title_spans cs)"

definition html_title :: "string \<Rightarrow> string option" where
  "html_title html =
     (case cut_ci (''<h1 class='' @ [dq] @ ''title'' @ [dq] @ ''>'') html of
        None \<Rightarrow> None
      | Some (_, r) \<Rightarrow> title_spans r)"

text \<open>\<open>/<blockquote class="abstract[^"]*">\s*<span[^>]*>.*?<\/span>([\s\S]*?)<\/blockquote>/i\<close>,
  tried at each place where the opening literal stands.\<close>

definition abstract_at :: "string \<Rightarrow> string option" where
  "abstract_at r =
     (case dropWhile (\<lambda>c. c \<noteq> dq) r of
        q # g # r1 \<Rightarrow>
          if g = CHR ''>'' \<and> ci_prefix ''<span'' (dropWhile js_space r1)
          then span_then False ''</blockquote>'' (drop 5 (dropWhile js_space r1))
          else None
      | _ \<Rightarrow> None)"

fun html_abstract :: "string \<Rightarrow> string option" where
  "html_abstract [] = None"
| "html_abstract (c # cs) =
     (if ci_prefix (''<blockquote class='' @ [dq] @ ''abstract'') (c # cs) then
        (case abstract_at (drop 27 (c # cs)) of
           Some g \<Rightarrow> Some g
         | None \<Rightarrow> html_abstract cs)
      else html_abstract cs)"

text \<open>\<open>[...html.matchAll(/<div class="authors">[\s\S]*?<a[^>]*>([\s\S]*?)<\/a>/gi)]\<close>.\<close>

function author_anchors :: "string \<Rightarrow> string list" where
  "author_anchors s =
     (case cut_ci (''<div class='' @ [dq] @ ''authors'' @ [dq] @ ''>'') s of
        None \<Rightarrow> []
      | Some (_, r) \<Rightarrow>
          (case cut_ci ''<a'' r of
             None \<Rightarrow> []
           | Some (_, r1) \<Rightarrow>
               (case after_gt r1 of
                  None \<Rightarrow> []
                | Some r2 \<Rightarrow>
                    (case cut_ci ''</a>'' r2 of
                       None \<Rightarrow> []
                     | Some (g, rest) \<Rightarrow> g # author_anchors rest))))"
  by pat_completeness auto
termination
proof (relation "measure length")
  show "wf (measure length)" by simp
next
  fix s :: string and x2 x y x2a xa r1 r2 x2b g rest
  assume a: "cut_ci (''<div class='' @ [dq] @ ''authors'' @ [dq] @ ''>'') s = Some x2"
    "(x, y) = x2" "cut_ci ''<a'' y = Some x2a" "(xa, r1) = x2a" "after_gt r1 = Some r2"
    "cut_ci ''</a>'' r2 = Some x2b" "(g, rest) = x2b"
  from a(1,2) have 1: "length y < length s"
    using cut_ci_length [of "''<div class='' @ [dq] @ ''authors'' @ [dq] @ ''>''" s x y] by simp
  from a(3,4) have 2: "length r1 \<le> length y"
    using cut_ci_length [of "''<a''" y xa r1] by simp
  from a(5) have 3: "length r2 \<le> length r1"
    using length_dropWhile_le [of "\<lambda>c. c \<noteq> CHR ''>''" r1]
    by (auto simp: after_gt_def split: list.splits)
  from a(6,7) have 4: "length rest \<le> length r2"
    using cut_ci_length [of "''</a>''" r2 g rest] by simp
  from 1 2 3 4 show "(rest, s) \<in> measure length" by simp
qed

text \<open>
  \<open>[...html.matchAll(/<a[^>]+href="(https?:[^"#]+)"/gi)]\<close>. \<open>href_at\<close> reads
  \<open>href="(https?:[^"#]+)"\<close> at one place and gives the group and the text after the
  match. The greedy run \<open>[^>]+\<close> after \<open><a\<close> is at least one character and at most the
  characters before the next \<open>>\<close>, and the longest run after which \<open>href_at\<close> succeeds is
  taken: \<open>href_from k r\<close> tries the runs of \<open>k\<close> characters and fewer.
\<close>

definition href_at :: "string \<Rightarrow> (string \<times> string) option" where
  "href_at r =
     (if ci_prefix (''href='' @ [dq] @ ''http'') r then
        (let r1 = drop 6 r;
             n = (if ci_prefix ''s'' (drop 4 r1) then 5 else 4)
         in case drop n r1 of
              [] \<Rightarrow> None
            | c # r2 \<Rightarrow>
                if c = CHR '':'' then
                  (let run = takeWhile (\<lambda>x. x \<noteq> dq \<and> x \<noteq> CHR ''#'') r2
                   in case dropWhile (\<lambda>x. x \<noteq> dq \<and> x \<noteq> CHR ''#'') r2 of
                        [] \<Rightarrow> None
                      | q # rest \<Rightarrow>
                          if q = dq \<and> run \<noteq> [] then Some (take (Suc n) r1 @ run, rest)
                          else None)
                else None)
      else None)"

fun href_from :: "nat \<Rightarrow> string \<Rightarrow> (string \<times> string) option" where
  "href_from 0 r = None"
| "href_from (Suc k) r =
     (case href_at (drop (Suc k) r) of
        Some m \<Rightarrow> Some m
      | None \<Rightarrow> href_from k r)"

lemma href_at_length: "href_at r = Some (g, rest) \<Longrightarrow> length rest < length r"
proof -
  assume a: "href_at r = Some (g, rest)"
  define r1 where "r1 = drop 6 r"
  define n :: nat where "n = (if ci_prefix ''s'' (drop 4 r1) then 5 else 4)"
  from a obtain c r2 where d: "drop n r1 = c # r2"
    by (auto simp: href_at_def Let_def r1_def n_def split: if_splits list.splits)
  from a d obtain q where e: "dropWhile (\<lambda>x. x \<noteq> dq \<and> x \<noteq> CHR ''#'') r2 = q # rest"
    by (auto simp: href_at_def Let_def r1_def n_def split: if_splits list.splits)
  have "length rest < length r2"
    using length_dropWhile_le [of "\<lambda>x. x \<noteq> dq \<and> x \<noteq> CHR ''#''" r2] e by simp
  moreover have "length r2 < length r1"
    using arg_cong [OF d, of length] by simp
  moreover have "length r1 \<le> length r"
    by (simp add: r1_def)
  ultimately show ?thesis by simp
qed

lemma href_from_length: "href_from k r = Some (g, rest) \<Longrightarrow> length rest < length r"
proof (induction k)
  case 0
  then show ?case by simp
next
  case (Suc k)
  show ?case
  proof (cases "href_at (drop (Suc k) r)")
    case None
    with Suc show ?thesis by simp
  next
    case (Some m)
    with Suc.prems have "href_at (drop (Suc k) r) = Some (g, rest)" by simp
    from href_at_length [OF this] show ?thesis by simp
  qed
qed

function link_hrefs :: "string \<Rightarrow> string list" where
  "link_hrefs [] = []"
| "link_hrefs (c # cs) =
     (if ci_prefix ''<a'' (c # cs) then
        (case href_from (length (takeWhile (\<lambda>x. x \<noteq> CHR ''>'') (drop 2 (c # cs))))
                (drop 2 (c # cs)) of
           Some (g, rest) \<Rightarrow> g # link_hrefs rest
         | None \<Rightarrow> link_hrefs cs)
      else link_hrefs cs)"
  by pat_completeness auto
termination
proof (relation "measure length")
  show "wf (measure length)" by simp
next
  fix c :: char and cs :: string and x2 g rest
  assume "href_from (length (takeWhile (\<lambda>x. x \<noteq> CHR ''>'') (drop 2 (c # cs))))
            (drop 2 (c # cs)) = Some x2" and "(g, rest) = x2"
  then have "length rest < length (drop 2 (c # cs))"
    using href_from_length by metis
  then show "(rest, c # cs) \<in> measure length" by simp
next
  fix c :: char and cs :: string
  show "(cs, c # cs) \<in> measure length" by simp
next
  fix c :: char and cs :: string
  show "(cs, c # cs) \<in> measure length" by simp
qed

text \<open>\<open>m[1].replace(/&amp;/g, '&').trim().replace(/#.*$/, '')\<close>.\<close>

fun unescape_amp :: "string \<Rightarrow> string" where
  "unescape_amp [] = []"
| "unescape_amp (c # cs) =
     (if prefix ''&amp;'' (c # cs) then CHR ''&'' # unescape_amp (drop 4 cs)
      else c # unescape_amp cs)"

fun strip_hash :: "string \<Rightarrow> string" where
  "strip_hash [] = []"
| "strip_hash (c # cs) =
     (if c = CHR ''#'' \<and> \<not> list_ex line_term cs then [] else c # strip_hash cs)"

definition link_of :: "string \<Rightarrow> string" where
  "link_of g = strip_hash (trim (unescape_amp g))"

text \<open>\<open>/github\.com\//i\<close>, \<open>/youtu(be)?\.com|vimeo\.com/i\<close> and
  \<open>/huggingface\.co\//i\<close>.\<close>

definition is_code_link :: "string \<Rightarrow> bool" where
  "is_code_link l = includes_str ''github.com/'' (toLowerCase l)"

definition is_video_link :: "string \<Rightarrow> bool" where
  "is_video_link l = test_any [''youtube.com'', ''youtu.com'', ''vimeo.com''] (toLowerCase l)"

definition is_model_link :: "string \<Rightarrow> bool" where
  "is_model_link l = includes_str ''huggingface.co/'' (toLowerCase l)"

section \<open>The platform\<close>

text \<open>
  What the worker asks of its platform besides \<open>new URL\<close>: \<open>fetch\<close>, whose promise
  settles with a response (of which \<open>ok\<close>, \<open>status\<close> and the text of the body are read)
  or rejects (\<open>None\<close>), and \<open>JSON.parse\<close>. The functions of the worker take the three as
  one record, and return the requests they sent, in order, beside their result.
\<close>

record response =
  ok :: bool
  status :: nat
  body :: string

datatype request = GET string | POST string string

record platform =
  newURL :: url_parser
  fetch :: "request \<Rightarrow> response option"
  JSON_parse :: json_parser

text \<open>The exceptions that leave the worker's functions: the two it throws itself, with
  the status and the text they carry, a rejected \<open>fetch\<close>, and the \<open>SyntaxError\<close> and
  \<open>TypeError\<close> of the platform.\<close>

datatype error =
    ArxivApiError nat
  | GeminiError nat string
  | FetchRejected
  | SyntaxError
  | TypeError

text \<open>\<open>encodeURIComponent\<close> on code units below 256: the unreserved characters stay, any
  other is written as the bytes of its UTF-8 form, each \<open>%\<close> and two capital hexadecimal
  digits.\<close>

definition hex_digit :: "nat \<Rightarrow> char" where
  "hex_digit n = ''0123456789ABCDEF'' ! (n mod 16)"

definition pct :: "nat \<Rightarrow> string" where
  "pct n = [CHR ''%'', hex_digit (n div 16), hex_digit n]"

definition uri_unreserved :: "char \<Rightarrow> bool" where
  "uri_unreserved c = (is_alpha c \<or> is_digit c \<or> c \<in> set ''-_.!~*()'' \<or> c = CHR 0x27)"

definition encodeURIComponent :: "string \<Rightarrow> string" where
  "encodeURIComponent s =
     concat (map (\<lambda>c. let n = (of_char c :: nat)
                       in if uri_unreserved c then [c]
                          else if n < 128 then pct n
                          else pct (192 + n div 64) @ pct (128 + n mod 64)) s)"

text \<open>\<open>JSON.stringify\<close> of a string, and of the body
  \<open>{ contents: [{ parts: [{ text: prompt }] }] }\<close> of the request to the model.\<close>

definition json_escape :: "char \<Rightarrow> string" where
  "json_escape c =
     (let n = (of_char c :: nat)
      in if c = dq then [CHR 0x5C, dq]
         else if c = CHR 0x5C then [CHR 0x5C, CHR 0x5C]
         else if n = 8 then [CHR 0x5C, CHR ''b'']
         else if n = 9 then [CHR 0x5C, CHR ''t'']
         else if n = 10 then [CHR 0x5C, CHR ''n'']
         else if n = 12 then [CHR 0x5C, CHR ''f'']
         else if n = 13 then [CHR 0x5C, CHR ''r'']
         else if n < 32 then [CHR 0x5C, CHR ''u'', CHR ''0'', CHR ''0'',
                              ''0123456789abcdef'' ! (n div 16), ''0123456789abcdef'' ! (n mod 16)]
         else [c])"

definition json_quote :: "string \<Rightarrow> string" where
  "json_quote s = dq # concat (map json_escape s) @ [dq]"

definition request_body :: "string \<Rightarrow> string" where
  "request_body prompt =
     ''{'' @ json_quote ''contents'' @ '':[{'' @ json_quote ''parts'' @ '':[{''
       @ json_quote ''text'' @ '':'' @ json_quote prompt @ ''}]}]}''"

section \<open>The prompt\<close>

text \<open>\<open>xs.join(sep)\<close>.\<close>

fun join :: "string \<Rightarrow> string list \<Rightarrow> string" where
  "join sep [] = []"
| "join sep [x] = x"
| "join sep (x # y # ys) = x @ sep @ join sep (y # ys)"

text \<open>\<open>x || d\<close> for a \<open>string | null\<close> and for a string.\<close>

definition str_or :: "string option \<Rightarrow> string \<Rightarrow> string" where
  "str_or x d = (case x of None \<Rightarrow> d | Some s \<Rightarrow> if s = [] then d else s)"

text \<open>The two lines before the paper information.\<close>

definition prompt_head :: "string list" where
  \<open>prompt_head =
     [''You are an assistant creating a practitioner-friendly structured summary of a research paper.'',
      ''Here is the paper information:'']\<close>

text \<open>The lines after it: an empty line, the schema and the rules.\<close>

definition prompt_rules :: "string list" where
  \<open>prompt_rules =
     ['''',
      ''Based on this paper information, create a structured summary and return ONLY strict JSON (no markdown fences) matching this full schema:'',
      ''{"title": string, "arxiv_id": string, "arxiv_abs_url": string, "arxiv_pdf_url": string, "one_liner": string, "simplified_summary": string, "practical_problem": string, "problems_solved": string[], "key_innovations": string[], "impact_potential": string[], "use_cases": string[], "benchmarks": [{"metric": string, "value": string, "baseline": string, "improvement": string}], "collaboration_type": "Academia-only"|"Industry-only"|"Academia-Industry"|"Unknown", "takeaways": string[], "notes": string[], "resources": {"code": string[], "video": string[], "checkpoints": string[]}, "reliability_score": number, "applicability_score": number, "overall_score": number, "total_authors": number, "authors": string[], "authors_affiliations": [{"name": string, "affiliation": string, "category": string}], "affiliation_breakdown": {"Academia": number, "Industry": number, "Other": number}}'',
      ''Definitions & Rules:'',
      ''- title: The paper title.'',
      ''- arxiv_id: The arXiv ID if applicable.'',
      ''- arxiv_abs_url: The abstract URL.'',
      ''- arxiv_pdf_url: The PDF URL.'',
      ''- one_liner: <= 25 words plain language value prop.'',
      ''- simplified_summary: Plain, non-academic explanation (<=300 words) covering what, how, why it matters.'',
      ''- practical_problem: Real-world problem addressed in one concise sentence.'',
      ''- problems_solved: 3-6 concrete pain points; each <= 12 words.'',
      ''- key_innovations: 3-6 technical or methodological novelties.'',
      ''- impact_potential: 3-5 bullets broader potential (societal/economic/scientific).'',
      ''- use_cases: 3-6 practical scenarios.'',
      ''- benchmarks: Only include reported quantitative results. {metric, value, baseline, improvement}. No invention. [] if none.'',
      ''- collaboration_type: Infer from affiliations; Academia-Industry if >=1 of each.'',
      ''- takeaways: 3-6 actionable distilled lessons.'',
      ''- notes: Limitations/risks (0-5).'',
      ''- resources.*: Only URLs found in the paper or clearly present; no hallucinated domains.'',
      ''- reliability_score: 0-100 (soundness: clarity, evidence, benchmarks, openness).'',
      ''- applicability_score: 0-100 (ease of adoption, code/resources, clarity).'',
      ''- overall_score: Weighted 0-100 (0.6*reliability + 0.4*applicability).'',
      ''- total_authors: Number of authors.'',
      ''- authors: List of author names.'',
      ''- authors_affiliations: List with name, affiliation, category (Academia/Industry/Other).'',
      ''- affiliation_breakdown: Count of each category.'',
      ''- NEVER fabricate benchmarks or links. Use empty collections if absent.'',
      ''- Keep wording neutral, concise, concrete. No hype.'']\<close>

definition buildPrompt :: "ArxivMeta \<Rightarrow> string" where
  "buildPrompt paperMeta =
     join [CHR 0x0A]
       (prompt_head @
        [''Title: '' @ str_or (title_m paperMeta) ''Unknown'',
         ''arXiv ID: '' @ str_or (id_m paperMeta) ''Unknown'',
         ''Abstract: '' @ str_or (abstract_m paperMeta) ''No abstract available'',
         ''Authors: '' @ str_or (Some (join '', '' (authors_m paperMeta))) ''Unknown authors'',
         ''Abstract URL: '' @ str_or (absUrl paperMeta) ''Unknown'',
         ''PDF URL: '' @ str_or (pdfUrl paperMeta) ''Unknown''] @
        prompt_rules)"

section \<open>The metadata fetcher\<close>

definition no_meta :: ArxivMeta where
  "no_meta =
     \<lparr> id_m = None, title_m = None, abstract_m = None, authors_m = [], absUrl = None,
       pdfUrl = None, authorsDetailed = [], codeLinks = [], videoLinks = [], modelLinks = [] \<rparr>"

text \<open>The branch taken when an identifier was extracted: one request to the Atom API, an
  error when the status is no success, and the fields read from the feed.\<close>

definition fromAtom :: "string \<Rightarrow> string \<Rightarrow> ArxivMeta" where
  "fromAtom i xml =
     (let found = List.map_filter author_of_block (author_blocks xml)
      in \<lparr> id_m = Some i,
           title_m = map_option clean (atom_title xml),
           abstract_m = map_option clean (tag_text ''<summary>'' ''</summary>'' xml),
           authors_m = map fst found,
           absUrl = Some (''https://arxiv.org/abs/'' @ i),
           pdfUrl = Some (''https://arxiv.org/pdf/'' @ i @ ''.pdf''),
           authorsDetailed = map (\<lambda>(n, a). classified n a) found,
           codeLinks = [], videoLinks = [], modelLinks = [] \<rparr>)"

text \<open>The fields read from the abstract page, the two addresses being set before the
  page is requested.\<close>

definition fromHtml :: "string \<Rightarrow> string \<Rightarrow> ArxivMeta" where
  "fromHtml id2 html =
     (let anchors = author_anchors html;
          names = filter (\<lambda>n. n \<noteq> []) (map clean_html anchors);
          links = map link_of (link_hrefs html)
      in \<lparr> id_m = None,
           title_m = map_option clean_html (html_title html),
           abstract_m = map_option clean_html (html_abstract html),
           authors_m = (if anchors = [] then [] else names),
           absUrl = Some (''https://arxiv.org/abs/'' @ id2),
           pdfUrl = Some (''https://arxiv.org/pdf/'' @ id2 @ ''.pdf''),
           authorsDetailed =
             (if anchors = [] then []
              else map (\<lambda>n. \<lparr> name = JStr n, affiliation = JNull, category = JStr ''Other'' \<rparr>) names),
           codeLinks = filter is_code_link links,
           videoLinks = filter (\<lambda>l. \<not> is_code_link l \<and> is_video_link l) links,
           modelLinks =
             filter (\<lambda>l. \<not> is_code_link l \<and> \<not> is_video_link l \<and> is_model_link l) links \<rparr>)"

definition fetchArxivMeta :: "platform \<Rightarrow> string \<Rightarrow> request list \<times> (error + ArxivMeta)" where
  "fetchArxivMeta pf u =
     (case extractArxivId (newURL pf) u of
        Some i \<Rightarrow>
          (let rq = GET (''https://export.arxiv.org/api/query?id_list='' @ encodeURIComponent i)
           in case fetch pf rq of
                None \<Rightarrow> ([rq], Inl FetchRejected)
              | Some res \<Rightarrow>
                  if \<not> ok res then ([rq], Inl (ArxivApiError (status res)))
                  else ([rq], Inr (fromAtom i (body res))))
      | None \<Rightarrow>
          (case newURL pf u of
             None \<Rightarrow> ([], Inr no_meta)
           | Some w \<Rightarrow>
               if suffix ''arxiv.org'' (hostname w) then
                 (let parts = pathParts w;
                      id2 = strip_pdf (if parts = [] then [] else last parts);
                      rq = GET (''https://arxiv.org/abs/'' @ id2)
                  in case fetch pf rq of
                       None \<Rightarrow>
                         ([rq], Inr (no_meta \<lparr> absUrl := Some (''https://arxiv.org/abs/'' @ id2),
                                               pdfUrl := Some (''https://arxiv.org/pdf/'' @ id2 @ ''.pdf'') \<rparr>))
                     | Some res \<Rightarrow> ([rq], Inr (fromHtml id2 (body res))))
               else ([], Inr no_meta)))"

section \<open>The summary resolver\<close>

text \<open>\<open>v?.[0]\<close>: the first element of an array, the first character of a string, the
  property \<open>0\<close> of an object.\<close>

fun opt_first :: "jsval \<Rightarrow> jsval" where
  "opt_first (JArr (x # xs)) = x"
| "opt_first (JStr (c # cs)) = JStr [c]"
| "opt_first (JObj kvs) = (case map_of kvs ''0'' of Some v \<Rightarrow> v | None \<Rightarrow> JUndefined)"
| "opt_first v = JUndefined"

text \<open>\<open>data?.candidates?.[0]?.content?.parts?.[0]?.text || ''\<close>.\<close>

definition reply_text :: "jsval \<Rightarrow> jsval" where
  "reply_text data =
     or_else
       (opt_prop (opt_first (opt_prop (opt_prop (opt_first (opt_prop data ''candidates''))
          ''content'') ''parts'')) ''text'')
       (JStr [])"

text \<open>
  \<open>summarizeWithGemini(apiKey, paperUrl)\<close>. The metadata are fetched first and an error
  of that stage leaves at once. The reply of the model is requested; a status that is no
  success is an error with the status and the text of the body, and a body that is no
  JSON is the \<open>SyntaxError\<close> of \<open>res.json()\<close>. \<open>text.trim()\<close> is a \<open>TypeError\<close> when
  the extracted \<open>text\<close> is no string.
\<close>

definition gemini_request :: "string \<Rightarrow> ArxivMeta \<Rightarrow> request" where
  "gemini_request apiKey paperMeta =
     POST (''https://generativelanguage.googleapis.com/v1beta/models/gemini-2.5-flash:generateContent?key=''
             @ encodeURIComponent apiKey)
          (request_body (buildPrompt paperMeta))"

definition summarizeWithGemini ::
    "platform \<Rightarrow> string \<Rightarrow> string \<Rightarrow> request list \<times> (error + StructuredSummary)" where
  "summarizeWithGemini pf apiKey paperUrl =
     (case fetchArxivMeta pf paperUrl of
        (sent, Inl e) \<Rightarrow> (sent, Inl e)
      | (sent, Inr paperMeta) \<Rightarrow>
          (let rq = gemini_request apiKey paperMeta
           in case fetch pf rq of
                None \<Rightarrow> (sent @ [rq], Inl FetchRejected)
              | Some res \<Rightarrow>
                  if \<not> ok res then (sent @ [rq], Inl (GeminiError (status res) (body res)))
                  else
                    (case JSON_parse pf (body res) of
                       None \<Rightarrow> (sent @ [rq], Inl SyntaxError)
                     | Some data \<Rightarrow>
                         (case reply_text data of
                            JStr txt \<Rightarrow>
                              (sent @ [rq], Inr (summarizeText (JSON_parse pf) paperMeta txt))
                          | _ \<Rightarrow> (sent @ [rq], Inl TypeError)))))"

section \<open>The platform's JSON parser on plain texts\<close>

text \<open>
  \<open>JSON_parse_model\<close> reads the JSON grammar (values, white space, strings with their
  escapes, numbers as exact rationals) and is used, like \<open>newURL_http\<close>, for the concrete
  evaluations; the theorems about the resolver hold for every parser. A string escape
  \<open>\uXXXX\<close> at or above \<open>0100\<close> lies outside the strings of this embedding and is
  refused. The recursion runs on a bound, twice the length of the text and two more, that
  the nesting of a text never reaches.
\<close>

definition json_ws :: "char \<Rightarrow> bool" where
  "json_ws c = (c \<in> {CHR 0x20, CHR 0x09, CHR 0x0A, CHR 0x0D})"

definition skip_ws :: "string \<Rightarrow> string" where
  "skip_ws s = dropWhile json_ws s"

definition digits_value :: "string \<Rightarrow> nat" where
  "digits_value ds = foldl (\<lambda>a c. 10 * a + (of_char c - 48)) 0 ds"

definition scale10 :: "rat \<Rightarrow> int \<Rightarrow> rat" where
  "scale10 x e = (if 0 \<le> e then x * 10 ^ nat e else x / 10 ^ nat (- e))"

definition parse_exponent :: "string \<Rightarrow> (int \<times> string) option" where
  "parse_exponent s =
     (case s of
        [] \<Rightarrow> Some (0, [])
      | c # r \<Rightarrow>
          if c = CHR ''e'' \<or> c = CHR ''E'' then
            (let neg = (case r of [] \<Rightarrow> False | g # _ \<Rightarrow> g = CHR ''-'');
                 r1 = (case r of [] \<Rightarrow> [] | g # t \<Rightarrow> if g = CHR ''-'' \<or> g = CHR ''+'' then t else r);
                 ds = takeWhile is_digit r1
             in if ds = [] then None
                else Some ((if neg then - int (digits_value ds) else int (digits_value ds)),
                           dropWhile is_digit r1))
          else Some (0, s))"

definition parse_number :: "string \<Rightarrow> (rat \<times> string) option" where
  "parse_number s =
     (let neg = (case s of [] \<Rightarrow> False | g # _ \<Rightarrow> g = CHR ''-'');
          s1 = (if neg then tl s else s);
          ip = takeWhile is_digit s1;
          s2 = dropWhile is_digit s1;
          dot = (case s2 of [] \<Rightarrow> False | g # _ \<Rightarrow> g = CHR ''.'');
          fp = (if dot then takeWhile is_digit (tl s2) else []);
          s3 = (if dot then dropWhile is_digit (tl s2) else s2)
      in if ip = [] \<or> (1 < length ip \<and> hd ip = CHR ''0'') \<or> (dot \<and> fp = []) then None
         else (case parse_exponent s3 of
                 None \<Rightarrow> None
               | Some (e, s4) \<Rightarrow>
                   (let m = of_nat (digits_value (ip @ fp)) / 10 ^ length fp
                    in Some (scale10 (if neg then - m else m) e, s4))))"

definition hex_value :: "char \<Rightarrow> nat option" where
  "hex_value c =
     (let n = (of_char c :: nat)
      in if 48 \<le> n \<and> n \<le> 57 then Some (n - 48)
         else if 65 \<le> n \<and> n \<le> 70 then Some (n - 55)
         else if 97 \<le> n \<and> n \<le> 102 then Some (n - 87)
         else None)"

definition unicode_escape :: "string \<Rightarrow> char option" where
  "unicode_escape s =
     (case map hex_value (take 4 s) of
        [Some a, Some b, Some c, Some d] \<Rightarrow>
          if a = 0 \<and> b = 0 then Some (char_of (16 * c + d)) else None
      | _ \<Rightarrow> None)"

definition simple_escape :: "char \<Rightarrow> char option" where
  "simple_escape e =
     (if e = dq \<or> e = CHR 0x5C \<or> e = CHR ''/'' then Some e
      else if e = CHR ''b'' then Some (CHR 0x08)
      else if e = CHR ''f'' then Some (CHR 0x0C)
      else if e = CHR ''n'' then Some (CHR 0x0A)
      else if e = CHR ''r'' then Some (CHR 0x0D)
      else if e = CHR ''t'' then Some (CHR 0x09)
      else None)"

text \<open>The characters of a string after its opening quote, and the text after its closing
  quote.\<close>

fun string_body :: "string \<Rightarrow> (string \<times> string) option" where
  "string_body [] = None"
| "string_body [c] = (if c = dq then Some ([], []) else None)"
| "string_body (c # e # r) =
     (if c = dq then Some ([], e # r)
      else if c = CHR 0x5C then
        (if e = CHR ''u'' then
           (case unicode_escape r of
              None \<Rightarrow> None
            | Some x \<Rightarrow> map_option (\<lambda>(a, b). (x # a, b)) (string_body (drop 4 r)))
         else
           (case simple_escape e of
              None \<Rightarrow> None
            | Some x \<Rightarrow> map_option (\<lambda>(a, b). (x # a, b)) (string_body r)))
      else if (of_char c :: nat) < 32 then None
      else map_option (\<lambda>(a, b). (c # a, b)) (string_body (e # r)))"

text \<open>A later member of an object replaces an earlier one of the same key.\<close>

definition put_member :: "string \<Rightarrow> jsval \<Rightarrow> (string \<times> jsval) list \<Rightarrow> (string \<times> jsval) list" where
  "put_member k v kvs = filter (\<lambda>(k', _). k' \<noteq> k) kvs @ [(k, v)]"

fun parse_value :: "nat \<Rightarrow> string \<Rightarrow> (jsval \<times> string) option"
  and parse_elems :: "nat \<Rightarrow> jsval list \<Rightarrow> string \<Rightarrow> (jsval \<times> string) option"
  and parse_members :: "nat \<Rightarrow> (string \<times> jsval) list \<Rightarrow> string \<Rightarrow> (jsval \<times> string) option"
where
  "parse_value 0 s = None"
| "parse_value (Suc n) s =
     (case s of
        [] \<Rightarrow> None
      | c # r \<Rightarrow>
          if c = CHR ''{'' then
            (case skip_ws r of
               [] \<Rightarrow> None
             | g # t \<Rightarrow> if g = CHR ''}'' then Some (JObj [], t) else parse_members n [] (g # t))
          else if c = CHR ''['' then
            (case skip_ws r of
               [] \<Rightarrow> None
             | g # t \<Rightarrow> if g = CHR '']'' then Some (JArr [], t) else parse_elems n [] (g # t))
          else if c = dq then map_option (\<lambda>(t, r'). (JStr t, r')) (string_body r)
          else if prefix ''true'' s then Some (JBool True, drop 4 s)
          else if prefix ''false'' s then Some (JBool False, drop 5 s)
          else if prefix ''null'' s then Some (JNull, drop 4 s)
          else map_option (\<lambda>(x, r'). (JNum x, r')) (parse_number s))"
| "parse_elems 0 acc s = None"
| "parse_elems (Suc n) acc s =
     (case parse_value n s of
        None \<Rightarrow> None
      | Some (v, r) \<Rightarrow>
          (case skip_ws r of
             [] \<Rightarrow> None
           | g # t \<Rightarrow>
               if g = CHR '','' then parse_elems n (acc @ [v]) (skip_ws t)
               else if g = CHR '']'' then Some (JArr (acc @ [v]), t)
               else None))"
| "parse_members 0 acc s = None"
| "parse_members (Suc n) acc s =
     (case s of
        [] \<Rightarrow> None
      | q # r \<Rightarrow>
          if q \<noteq> dq then None
          else
            (case string_body r of
               None \<Rightarrow> None
             | Some (k, r1) \<Rightarrow>
                 (case skip_ws r1 of
                    [] \<Rightarrow> None
                  | g # r2 \<Rightarrow>
                      if g \<noteq> CHR '':'' then None
                      else
                        (case parse_value n (skip_ws r2) of
                           None \<Rightarrow> None
                         | Some (v, r3) \<Rightarrow>
                             (case skip_ws r3 of
                                [] \<Rightarrow> None
                              | h # r4 \<Rightarrow>
                                  if h = CHR '','' then parse_members n (put_member k v acc) (skip_ws r4)
                                  else if h = CHR ''}'' then Some (JObj (put_member k v acc), r4)
                                  else None)))))"

definition JSON_parse_model :: json_parser where
  "JSON_parse_model s =
     (case parse_value (2 * length s + 2) (skip_ws s) of
        None \<Rightarrow> None
      | Some (v, r) \<Rightarrow> if skip_ws r = [] then Some v else None)"

section \<open>A mocked platform\<close>

text \<open>
  For the examples: the two parsers above, and a \<open>fetch\<close> that settles every \<open>GET\<close>
  with one outcome and every \<open>POST\<close> with another. \<open>gemini_reply txt\<close> is the body of a
  reply of the model whose text is \<open>txt\<close>.
\<close>

definition mock_platform :: "response option \<Rightarrow> response option \<Rightarrow> platform" where
  "mock_platform arxiv llm =
     \<lparr> newURL = newURL_http,
       fetch = (\<lambda>rq. case rq of GET u \<Rightarrow> arxiv | POST u b \<Rightarrow> llm),
       JSON_parse = JSON_parse_model \<rparr>"

definition gemini_reply :: "string \<Rightarrow> string" where
  "gemini_reply txt =
     ''{'' @ json_quote ''candidates'' @ '':[{'' @ json_quote ''content'' @ '':{''
       @ json_quote ''parts'' @ '':[{'' @ json_quote ''text'' @ '':'' @ json_quote txt
       @ ''}]}}]}''"

definition success :: "string \<Rightarrow> response" where
  "success b = \<lparr> ok = True, status = 200, body = b \<rparr>"



section \<open>The affiliation classifier on the specification's examples\<close>

lemma academia_hit:
  assumes "test_any academia_keys (toLowerCase s)"
  shows "categorizeAffiliation (Some s) = Academia"
proof -
  have "s \<noteq> []"
    using assms by (auto simp: test_any_def toLowerCase_def list_ex_iff academia_keys_def)
  then show ?thesis
    using assms by (simp add: categorizeAffiliation_def)
qed

lemma industry_hit:
  assumes "\<not> test_any academia_keys (toLowerCase s)" and "test_any industry_keys (toLowerCase s)"
  shows "categorizeAffiliation (Some s) = Industry"
proof -
  have "s \<noteq> []"
    using assms(2) by (auto simp: test_any_def toLowerCase_def list_ex_iff industry_keys_def)
  then show ?thesis
    using assms by (simp add: categorizeAffiliation_def)
qed

lemma no_hit:
  assumes "\<not> test_any academia_keys (toLowerCase s)" and "\<not> test_any industry_keys (toLowerCase s)"
  shows "categorizeAffiliation (Some s) = Other"
  using assms by (simp add: categorizeAffiliation_def)

lemma battery_values:
  "categorizeAffiliation None = Other"
  "categorizeAffiliation (Some ''MIT'') = Other"
  "categorizeAffiliation (Some ''Google Inc'') = Industry"
  "categorizeAffiliation (Some ''Springfield Researchers Collective'') = Other"
  by code_simp+

text \<open>
  Claim C1, as the code has it. The classifier answers \<open>Other\<close> for \<open>null\<close>, \<open>Industry\<close>
  for \<open>Google Inc\<close> and \<open>Other\<close> for \<open>Springfield Researchers Collective\<close>; for \<open>MIT\<close>
  it answers \<open>Other\<close>, since the lower-cased text \<open>mit\<close> holds no keyword of either set.
  The Academia keywords are tried first: a text that holds one is Academia whatever else it
  holds, a text that holds none but holds an Industry keyword is Industry, and a text that
  holds neither is \<open>Other\<close>.
\<close>

theorem categorizeAffiliation_battery:
  "categorizeAffiliation None = Other \<and>
   categorizeAffiliation (Some ''MIT'') = Other \<and>
   categorizeAffiliation (Some ''Google Inc'') = Industry \<and>
   categorizeAffiliation (Some ''Springfield Researchers Collective'') = Other \<and>
   (test_any academia_keys (toLowerCase s) \<longrightarrow> categorizeAffiliation (Some s) = Academia) \<and>
   (\<not> test_any academia_keys (toLowerCase s) \<and> test_any industry_keys (toLowerCase s) \<longrightarrow>
      categorizeAffiliation (Some s) = Industry) \<and>
   (\<not> test_any academia_keys (toLowerCase s) \<and> \<not> test_any industry_keys (toLowerCase s) \<longrightarrow>
      categorizeAffiliation (Some s) = Other)"
  using battery_values academia_hit [of s] industry_hit [of s] no_hit [of s] by blast

text \<open>The precedence at work: a text with a keyword of each set is Academia.\<close>

theorem categorizeAffiliation_battery_witness:
  "test_any academia_keys (toLowerCase ''Google Research Institute'') \<and>
   test_any industry_keys (toLowerCase ''Google Research Institute'') \<and>
   categorizeAffiliation (Some ''Google Research Institute'') = Academia"
proof -
  have a: "test_any academia_keys (toLowerCase ''Google Research Institute'')"
    by code_simp
  have i: "test_any industry_keys (toLowerCase ''Google Research Institute'')"
    by code_simp
  from a categorizeAffiliation_battery [of "''Google Research Institute''"]
  have "categorizeAffiliation (Some ''Google Research Institute'') = Academia"
    by blast
  with a i show ?thesis by blast
qed

text \<open>The specification's example \<open>classify("MIT") == Academia\<close> is not what the code
  returns.\<close>

theorem categorizeAffiliation_MIT_counterexample:
  "categorizeAffiliation (Some ''MIT'') \<noteq> Academia"
  by code_simp

section \<open>The collaboration type of a list of authors\<close>

lemma list_ex_category: "list_ex (\<lambda>a. category a = v) l \<longleftrightarrow> v \<in> category ` set l"
  by (induction l) auto

text \<open>
  Claim C6. \<open>inferCollabType\<close> answers \<open>Unknown\<close> for the empty list;
  \<open>Academia-Industry\<close> when the categories of the list include both \<open>Academia\<close> and
  \<open>Industry\<close>; \<open>Academia-only\<close> when they include \<open>Academia\<close> and not \<open>Industry\<close>;
  \<open>Industry-only\<close> when they include \<open>Industry\<close> and not \<open>Academia\<close>; and \<open>Unknown\<close>
  when they include neither.
\<close>

theorem inferCollabType_cases:
  "inferCollabType [] = Unknown \<and>
   (JStr ''Academia'' \<in> category ` set l \<and> JStr ''Industry'' \<in> category ` set l \<longrightarrow>
      inferCollabType l = Academia_Industry) \<and>
   (JStr ''Academia'' \<in> category ` set l \<and> JStr ''Industry'' \<notin> category ` set l \<longrightarrow>
      inferCollabType l = Academia_only) \<and>
   (JStr ''Academia'' \<notin> category ` set l \<and> JStr ''Industry'' \<in> category ` set l \<longrightarrow>
      inferCollabType l = Industry_only) \<and>
   (JStr ''Academia'' \<notin> category ` set l \<and> JStr ''Industry'' \<notin> category ` set l \<longrightarrow>
      inferCollabType l = Unknown)"
proof (cases "l = []")
  case True
  then show ?thesis by (simp add: inferCollabType_def)
next
  case False
  then show ?thesis
    by (simp add: inferCollabType_def list_ex_category Let_def del: image_iff)
qed

text \<open>The four examples of the specification, the authors as the fetcher classifies them.\<close>

theorem inferCollabType_cases_witness:
  "inferCollabType [] = Unknown \<and>
   inferCollabType [classified ''Ada'' (Some ''Open University'')] = Academia_only \<and>
   inferCollabType [classified ''Ada'' (Some ''Open University''),
                    classified ''Bob'' (Some ''Google Inc'')] = Academia_Industry \<and>
   inferCollabType [classified ''Bob'' (Some ''Google Inc'')] = Industry_only \<and>
   inferCollabType [classified ''Cy'' None] = Unknown"
proof -
  have ada: "category (classified ''Ada'' (Some ''Open University'')) = JStr ''Academia''"
    by code_simp
  have bob: "category (classified ''Bob'' (Some ''Google Inc'')) = JStr ''Industry''"
    by code_simp
  have cy: "category (classified ''Cy'' None) = JStr ''Other''"
    by code_simp
  have 1: "inferCollabType [classified ''Ada'' (Some ''Open University'')] = Academia_only"
    using inferCollabType_cases [of "[classified ''Ada'' (Some ''Open University'')]"]
    by (simp add: ada)
  have 2: "inferCollabType [classified ''Ada'' (Some ''Open University''),
                            classified ''Bob'' (Some ''Google Inc'')] = Academia_Industry"
    using inferCollabType_cases [of "[classified ''Ada'' (Some ''Open University''),
                                      classified ''Bob'' (Some ''Google Inc'')]"]
    by (simp add: ada bob)
  have 3: "inferCollabType [classified ''Bob'' (Some ''Google Inc'')] = Industry_only"
    using inferCollabType_cases [of "[classified ''Bob'' (Some ''Google Inc'')]"]
    by (simp add: bob)
  have 4: "inferCollabType [classified ''Cy'' None] = Unknown"
    using inferCollabType_cases [of "[classified ''Cy'' None]"]
    by (simp add: cy)
  have 0: "inferCollabType [] = Unknown"
    using inferCollabType_cases [of "[]"] by simp
  from 0 1 2 3 4 show ?thesis by simp
qed

section \<open>The input normalizer\<close>

lemma split_on_no_sep: "d \<notin> set x \<Longrightarrow> split_on d x = [x]"
  by (induction x) auto

lemma split_on_sep: "d \<notin> set x \<Longrightarrow> split_on d (x @ d # y) = x # split_on d y"
  by (induction x) auto

lemma concat_split_on: "concat (split_on d s) = filter (\<lambda>c. c \<noteq> d) s"
  by (induction s) (auto split: list.splits)

lemma split_on_some_piece:
  assumes "\<exists>c\<in>set s. c \<noteq> d"
  shows "filter (\<lambda>p. p \<noteq> []) (split_on d s) \<noteq> []"
proof
  assume "filter (\<lambda>p. p \<noteq> []) (split_on d s) = []"
  then have "\<forall>p\<in>set (split_on d s). p = []"
    by (simp add: filter_empty_conv)
  then have "concat (split_on d s) = []"
    by simp
  then have "filter (\<lambda>c. c \<noteq> d) s = []"
    by (simp add: concat_split_on)
  with assms show False
    by (auto simp: filter_empty_conv)
qed

lemma strip_pdf_suffix: "strip_pdf (i @ ''.pdf'') = i"
  by (simp add: strip_pdf_def toLowerCase_def lower_char_def suffix_def)

lemma pathParts_abs:
  assumes "pathname u = ''/abs/'' @ i" and "\<exists>c\<in>set i. c \<noteq> CHR ''/''"
  shows "elem_at (pathParts u) 0 = Some ''abs'' \<and> present (elem_at (pathParts u) 1)"
proof -
  let ?rest = "filter (\<lambda>p. p \<noteq> []) (split_on CHR ''/'' i)"
  have sp: "split_on CHR ''/'' (''/abs/'' @ i) = [] # ''abs'' # split_on CHR ''/'' i"
    using split_on_sep [of "CHR ''/''" "''abs''" i] by simp
  have parts: "pathParts u = ''abs'' # ?rest"
    unfolding pathParts_def assms(1) sp by simp
  obtain p ps where rest: "?rest = p # ps"
    using split_on_some_piece [OF assms(2)] by (cases ?rest) auto
  have "p \<in> set ?rest"
    by (simp add: rest del: set_filter)
  then have "p \<noteq> []"
    by simp
  then show ?thesis
    by (simp add: parts rest elem_at_def del: split_on.simps)
qed

lemma pathParts_pdf:
  assumes "pathname u = ''/pdf/'' @ i @ ''.pdf''" and "CHR ''/'' \<notin> set i"
  shows "pathParts u = [''pdf'', i @ ''.pdf'']"
proof -
  have "CHR ''/'' \<notin> set (i @ ''.pdf'')"
    using assms(2) by simp
  then have "split_on CHR ''/'' (i @ ''.pdf'') = [i @ ''.pdf'']"
    by (rule split_on_no_sep)
  moreover have "split_on CHR ''/'' (''/pdf/'' @ i @ ''.pdf'')
      = [] # ''pdf'' # split_on CHR ''/'' (i @ ''.pdf'')"
    using split_on_sep [of "CHR ''/''" "''pdf''" "i @ ''.pdf''"] by simp
  ultimately have "filter (\<lambda>p. p \<noteq> []) (split_on CHR ''/'' (''/pdf/'' @ i @ ''.pdf''))
      = [''pdf'', i @ ''.pdf'']"
    by (simp only: filter.simps) simp
  then show ?thesis
    unfolding pathParts_def assms(1) .
qed

lemma normalize_abs:
  assumes "P (trim s) = Some u" and "hostname u = ''arxiv.org''"
    and "pathname u = ''/abs/'' @ i" and "\<exists>c\<in>set i. c \<noteq> CHR ''/''"
  shows "normalizePaperInput P s = trim s"
  using pathParts_abs [OF assms(3) assms(4)] assms(1) assms(2)
  by (simp add: normalizePaperInput_def Let_def)

lemma normalize_pdf:
  assumes "P (trim s) = Some u" and "hostname u = ''arxiv.org''"
    and "pathname u = ''/pdf/'' @ i @ ''.pdf''" and "CHR ''/'' \<notin> set i"
  shows "normalizePaperInput P s = ''https://arxiv.org/abs/'' @ i"
  using pathParts_pdf [OF assms(3) assms(4)] assms(1) assms(2)
  by (simp add: normalizePaperInput_def Let_def elem_at_def strip_pdf_suffix)

lemma normalize_bare:
  assumes "P (trim s) = None"
  shows "normalizePaperInput P s = ''https://arxiv.org/abs/'' @ trim s"
  using assms by (simp add: normalizePaperInput_def Let_def)

lemma normalize_other_host:
  assumes "P (trim s) = Some u" and "hostname u \<noteq> ''arxiv.org''"
  shows "normalizePaperInput P s = ''https://web.archive.org/web/2/'' @ trim s"
  using assms by (simp add: normalizePaperInput_def Let_def)
text \<open>
  Claim C5, as the code has it. Let \<open>t\<close> be the reference with the white space at its two
  ends removed. If \<open>t\<close> is an URL of host \<open>arxiv.org\<close> with path \<open>/abs/<id>\<close>, the
  normalizer returns \<open>t\<close>; if its path is \<open>/pdf/<id>.pdf\<close> with \<open><id>\<close> a single
  path segment, the normalizer returns \<open>https://arxiv.org/abs/<id>\<close>; if \<open>t\<close> is no URL
  (as every text with no scheme), it returns \<open>https://arxiv.org/abs/<t>\<close>; and if \<open>t\<close>
  is an URL of another host, it returns \<open>https://web.archive.org/web/2/<t>\<close>.
\<close>

theorem normalizePaperInput_equations:
  "(P (trim s) = Some u \<and> hostname u = ''arxiv.org'' \<and> pathname u = ''/abs/'' @ i
      \<and> (\<exists>c\<in>set i. c \<noteq> CHR ''/'') \<longrightarrow>
      normalizePaperInput P s = trim s) \<and>
   (P (trim s) = Some u \<and> hostname u = ''arxiv.org'' \<and> pathname u = ''/pdf/'' @ i @ ''.pdf''
      \<and> CHR ''/'' \<notin> set i \<longrightarrow>
      normalizePaperInput P s = ''https://arxiv.org/abs/'' @ i) \<and>
   (P (trim s) = None \<longrightarrow>
      normalizePaperInput P s = ''https://arxiv.org/abs/'' @ trim s) \<and>
   (P (trim s) = Some u \<and> hostname u \<noteq> ''arxiv.org'' \<longrightarrow>
      normalizePaperInput P s = ''https://web.archive.org/web/2/'' @ trim s)"
  using normalize_abs [of P s u i] normalize_pdf [of P s u i] normalize_bare [of P s]
    normalize_other_host [of P s u]
  by blast

text \<open>The four equations on the specification's own reference, with a space after it.\<close>

theorem normalizePaperInput_equations_witness:
  "normalizePaperInput newURL_http ''https://arxiv.org/abs/2506.01667 ''
     = ''https://arxiv.org/abs/2506.01667'' \<and>
   normalizePaperInput newURL_http ''https://arxiv.org/pdf/2506.01667.pdf ''
     = ''https://arxiv.org/abs/2506.01667'' \<and>
   normalizePaperInput newURL_http ''2506.01667 ''
     = ''https://arxiv.org/abs/2506.01667'' \<and>
   normalizePaperInput newURL_http ''https://example.com/paper.html ''
     = ''https://web.archive.org/web/2/https://example.com/paper.html''"
proof -
  have t1: "trim ''https://arxiv.org/abs/2506.01667 '' = ''https://arxiv.org/abs/2506.01667''"
    by code_simp
  have p1: "newURL_http ''https://arxiv.org/abs/2506.01667''
      = Some \<lparr> hostname = ''arxiv.org'', pathname = ''/abs/'' @ ''2506.01667'' \<rparr>"
    by code_simp
  have 1: "normalizePaperInput newURL_http ''https://arxiv.org/abs/2506.01667 ''
      = ''https://arxiv.org/abs/2506.01667''"
    using normalizePaperInput_equations [of newURL_http "''https://arxiv.org/abs/2506.01667 ''"
        "\<lparr> hostname = ''arxiv.org'', pathname = ''/abs/'' @ ''2506.01667'' \<rparr>" "''2506.01667''"]
    unfolding t1 p1 by simp
  have t2: "trim ''https://arxiv.org/pdf/2506.01667.pdf ''
      = ''https://arxiv.org/pdf/2506.01667.pdf''"
    by code_simp
  have p2: "newURL_http ''https://arxiv.org/pdf/2506.01667.pdf''
      = Some \<lparr> hostname = ''arxiv.org'', pathname = ''/pdf/'' @ ''2506.01667'' @ ''.pdf'' \<rparr>"
    by code_simp
  have 2: "normalizePaperInput newURL_http ''https://arxiv.org/pdf/2506.01667.pdf ''
      = ''https://arxiv.org/abs/2506.01667''"
    using normalizePaperInput_equations [of newURL_http
        "''https://arxiv.org/pdf/2506.01667.pdf ''"
        "\<lparr> hostname = ''arxiv.org'', pathname = ''/pdf/'' @ ''2506.01667'' @ ''.pdf'' \<rparr>"
        "''2506.01667''"]
    unfolding t2 p2 by simp
  have t3: "trim ''2506.01667 '' = ''2506.01667''"
    by code_simp
  have p3: "newURL_http ''2506.01667'' = None"
    by code_simp
  have 3: "normalizePaperInput newURL_http ''2506.01667 '' = ''https://arxiv.org/abs/2506.01667''"
    using normalizePaperInput_equations [of newURL_http "''2506.01667 ''"]
    unfolding t3 p3 by simp
  have t4: "trim ''https://example.com/paper.html '' = ''https://example.com/paper.html''"
    by code_simp
  have p4: "newURL_http ''https://example.com/paper.html''
      = Some \<lparr> hostname = ''example.com'', pathname = ''/paper.html'' \<rparr>"
    by code_simp
  have 4: "normalizePaperInput newURL_http ''https://example.com/paper.html ''
      = ''https://web.archive.org/web/2/https://example.com/paper.html''"
    using normalizePaperInput_equations [of newURL_http "''https://example.com/paper.html ''"
        "\<lparr> hostname = ''example.com'', pathname = ''/paper.html'' \<rparr>"]
    unfolding t4 p4 by simp
  from 1 2 3 4 show ?thesis by blast
qed

text \<open>
  The equations as the specification writes them fail twice: a \<open>/pdf/\<close> URL of an old
  identifier, which has a slash, keeps only the archive name; and a reference written with
  white space around it is normalized without the white space.
\<close>

theorem normalizePaperInput_equations_counterexample:
  "normalizePaperInput newURL_http ''https://arxiv.org/pdf/hep-th/9901001.pdf''
     \<noteq> ''https://arxiv.org/abs/'' @ ''hep-th/9901001'' \<and>
   normalizePaperInput newURL_http '' 2506.01667''
     \<noteq> ''https://arxiv.org/abs/'' @ '' 2506.01667''"
  by code_simp

text \<open>
  Claim C2, as the code has it. The normalizer is a total function of the text: every
  exception of the parser is caught. Unless the trimmed reference is an URL of host
  \<open>arxiv.org\<close> whose path has none of the three shapes the normalizer knows, the result is
  \<open>https://arxiv.org/abs/<id>\<close> for some \<open><id>\<close>, or the archive address of the trimmed
  reference, or the trimmed reference itself, which is then an URL of host \<open>arxiv.org\<close>
  whose path begins with \<open>abs\<close>.
\<close>

theorem normalizePaperInput_shape:
  assumes "\<forall>u. P (trim s) = Some u \<and> hostname u = ''arxiv.org'' \<longrightarrow>
             (elem_at (pathParts u) 0 = Some ''abs'' \<and> present (elem_at (pathParts u) 1))
           \<or> (elem_at (pathParts u) 0 = Some ''pdf'' \<and> present (elem_at (pathParts u) 1))
           \<or> length (pathParts u) = 1"
  shows "(\<exists>i. normalizePaperInput P s = ''https://arxiv.org/abs/'' @ i)
       \<or> normalizePaperInput P s = ''https://web.archive.org/web/2/'' @ trim s
       \<or> (\<exists>u. P (trim s) = Some u \<and> hostname u = ''arxiv.org''
              \<and> elem_at (pathParts u) 0 = Some ''abs''
              \<and> normalizePaperInput P s = trim s)"
proof (cases "P (trim s)")
  case None
  then show ?thesis by (simp add: normalizePaperInput_def Let_def)
next
  case (Some u)
  show ?thesis
  proof (cases "hostname u = ''arxiv.org''")
    case False
    with Some show ?thesis by (simp add: normalizePaperInput_def Let_def)
  next
    case True
    with Some assms
    have "(elem_at (pathParts u) 0 = Some ''abs'' \<and> present (elem_at (pathParts u) 1))
        \<or> (elem_at (pathParts u) 0 = Some ''pdf'' \<and> present (elem_at (pathParts u) 1))
        \<or> length (pathParts u) = 1"
      by blast
    with Some True show ?thesis
      by (auto simp: normalizePaperInput_def Let_def)
  qed
qed

text \<open>An \<open>http\<close> address of an abstract page comes back as it is, and a bare identifier as
  an abstract address.\<close>

theorem normalizePaperInput_shape_witness:
  "((\<exists>i. normalizePaperInput newURL_http ''http://arxiv.org/abs/2506.01667''
            = ''https://arxiv.org/abs/'' @ i)
    \<or> normalizePaperInput newURL_http ''http://arxiv.org/abs/2506.01667''
         = ''https://web.archive.org/web/2/'' @ trim ''http://arxiv.org/abs/2506.01667''
    \<or> (\<exists>u. newURL_http (trim ''http://arxiv.org/abs/2506.01667'') = Some u
           \<and> hostname u = ''arxiv.org''
           \<and> elem_at (pathParts u) 0 = Some ''abs''
           \<and> normalizePaperInput newURL_http ''http://arxiv.org/abs/2506.01667''
               = trim ''http://arxiv.org/abs/2506.01667''))
   \<and> newURL_http (trim ''http://arxiv.org/abs/2506.01667'')
       = Some \<lparr> hostname = ''arxiv.org'', pathname = ''/abs/2506.01667'' \<rparr>"
proof -
  have p: "newURL_http (trim ''http://arxiv.org/abs/2506.01667'')
      = Some \<lparr> hostname = ''arxiv.org'', pathname = ''/abs/2506.01667'' \<rparr>"
    by code_simp
  have parts: "pathParts \<lparr> hostname = ''arxiv.org'', pathname = ''/abs/2506.01667'' \<rparr>
      = [''abs'', ''2506.01667'']"
    by code_simp
  have h: "\<forall>u. newURL_http (trim ''http://arxiv.org/abs/2506.01667'') = Some u
            \<and> hostname u = ''arxiv.org'' \<longrightarrow>
             (elem_at (pathParts u) 0 = Some ''abs'' \<and> present (elem_at (pathParts u) 1))
           \<or> (elem_at (pathParts u) 0 = Some ''pdf'' \<and> present (elem_at (pathParts u) 1))
           \<or> length (pathParts u) = 1"
    unfolding p by (auto simp: parts elem_at_def)
  from normalizePaperInput_shape [of newURL_http "''http://arxiv.org/abs/2506.01667''", OF h] p
  show ?thesis
    by blast
qed

text \<open>Other shapes do come out: an \<open>http\<close> abstract address and an \<open>arxiv.org\<close> address
  of another page are returned as they are.\<close>

theorem normalizePaperInput_shape_counterexample:
  "\<not> prefix ''https://arxiv.org/abs/''
        (normalizePaperInput newURL_http ''http://arxiv.org/abs/2506.01667'') \<and>
   \<not> prefix ''https://web.archive.org/web/2/''
        (normalizePaperInput newURL_http ''http://arxiv.org/abs/2506.01667'') \<and>
   \<not> prefix ''https://arxiv.org/abs/''
        (normalizePaperInput newURL_http ''https://arxiv.org/list/cs.AI/recent'') \<and>
   \<not> prefix ''https://web.archive.org/web/2/''
        (normalizePaperInput newURL_http ''https://arxiv.org/list/cs.AI/recent'')"
  by code_simp

section \<open>The metadata fetcher\<close>

text \<open>
  Claim C4. When an identifier was extracted from the address and the request to the Atom
  API settles with a status that is no success, \<open>fetchArxivMeta\<close> fails with the error
  that carries that status. The one request sent is the one to the API: the abstract page
  is not asked for and no metadata are returned. The resolver passes the error on without
  a request to the model.
\<close>

theorem arxiv_api_error_propagates:
  assumes "extractArxivId (newURL pf) u = Some i"
    and "fetch pf (GET (''https://export.arxiv.org/api/query?id_list='' @ encodeURIComponent i))
           = Some res"
    and "\<not> ok res"
  shows "fetchArxivMeta pf u
           = ([GET (''https://export.arxiv.org/api/query?id_list='' @ encodeURIComponent i)],
              Inl (ArxivApiError (status res)))
         \<and> summarizeWithGemini pf apiKey u
           = ([GET (''https://export.arxiv.org/api/query?id_list='' @ encodeURIComponent i)],
              Inl (ArxivApiError (status res)))"
proof -
  have "fetchArxivMeta pf u
          = ([GET (''https://export.arxiv.org/api/query?id_list='' @ encodeURIComponent i)],
             Inl (ArxivApiError (status res)))"
    using assms by (simp add: fetchArxivMeta_def Let_def)
  then show ?thesis
    by (simp add: summarizeWithGemini_def)
qed

text \<open>The Atom API answers 500 for the specification's reference.\<close>

theorem arxiv_api_error_propagates_witness:
  "fetchArxivMeta
     (mock_platform (Some \<lparr> ok = False, status = 500, body = ''Internal Server Error'' \<rparr>) None)
     ''https://arxiv.org/abs/2506.01667''
     = ([GET ''https://export.arxiv.org/api/query?id_list=2506.01667''],
        Inl (ArxivApiError 500))"
proof -
  let ?res = "\<lparr> ok = False, status = 500, body = ''Internal Server Error'' \<rparr>"
  let ?pf = "mock_platform (Some ?res) None"
  have i: "extractArxivId (newURL ?pf) ''https://arxiv.org/abs/2506.01667'' = Some ''2506.01667''"
    by code_simp
  have e: "encodeURIComponent ''2506.01667'' = ''2506.01667''"
    by code_simp
  have f: "fetch ?pf (GET (''https://export.arxiv.org/api/query?id_list=''
             @ encodeURIComponent ''2506.01667'')) = Some ?res"
    by (simp add: mock_platform_def)
  have n: "\<not> ok ?res"
    by simp
  from arxiv_api_error_propagates [OF i f n] show ?thesis
    by (simp add: e)
qed

text \<open>
  Claim C10. For an address whose host does not end in \<open>arxiv.org\<close>, \<open>fetchArxivMeta\<close>
  sends no request and returns, without an error, the metadata whose \<open>id\<close>, \<open>title\<close>,
  \<open>abstract\<close>, \<open>absUrl\<close> and \<open>pdfUrl\<close> are \<open>null\<close> and whose collections are empty.
\<close>

theorem foreign_host_no_request:
  assumes "newURL pf u = Some w" and "\<not> suffix ''arxiv.org'' (hostname w)"
  shows "fetchArxivMeta pf u
           = ([], Inr \<lparr> id_m = None, title_m = None, abstract_m = None, authors_m = [],
                        absUrl = None, pdfUrl = None, authorsDetailed = [], codeLinks = [],
                        videoLinks = [], modelLinks = [] \<rparr>)"
  using assms by (simp add: fetchArxivMeta_def extractArxivId_def no_meta_def)

text \<open>The archive address that the normalizer makes of a reference to another site.\<close>

theorem foreign_host_no_request_witness:
  "normalizePaperInput newURL_http ''https://example.com/paper.html''
     = ''https://web.archive.org/web/2/https://example.com/paper.html'' \<and>
   fetchArxivMeta (mock_platform None None)
       ''https://web.archive.org/web/2/https://example.com/paper.html''
     = ([], Inr \<lparr> id_m = None, title_m = None, abstract_m = None, authors_m = [],
                  absUrl = None, pdfUrl = None, authorsDetailed = [], codeLinks = [],
                  videoLinks = [], modelLinks = [] \<rparr>)"
proof -
  let ?u = "''https://web.archive.org/web/2/https://example.com/paper.html''"
  let ?w = "\<lparr> hostname = ''web.archive.org'', pathname = ''/web/2/https://example.com/paper.html'' \<rparr>"
  have n: "normalizePaperInput newURL_http ''https://example.com/paper.html'' = ?u"
    by code_simp
  have p: "newURL (mock_platform None None) ?u = Some ?w"
    by code_simp
  have h: "\<not> suffix ''arxiv.org'' (hostname ?w)"
    by code_simp
  from foreign_host_no_request [OF p h] n show ?thesis
    by simp
qed

section \<open>The summary resolver\<close>






text \<open>
  Claim C3. When the text handed to the parser is no valid JSON, the resolver throws
  nothing and returns the summary built from the fetched metadata alone: \<open>one_liner\<close> is
  the fixed sentence, \<open>notes\<close> holds the one fixed message, \<open>problems_solved\<close>,
  \<open>key_innovations\<close>, \<open>takeaways\<close> and \<open>benchmarks\<close> are empty, \<open>resources\<close> are the
  code, video and model links of the metadata, and \<open>collaboration_type\<close> is derived from
  the classified authors of the metadata.
\<close>

theorem parse_failure_fallback:
  assumes "fetchArxivMeta pf paperUrl = (sent, Inr paperMeta)"
    and "fetch pf (gemini_request apiKey paperMeta) = Some res" and "ok res"
    and "JSON_parse pf (body res) = Some data" and "reply_text data = JStr txt"
    and "JSON_parse pf (extractJsonStr txt) = None"
  shows "snd (summarizeWithGemini pf apiKey paperUrl) = Inr (fallback paperMeta)
       \<and> one_liner (fallback paperMeta)
           = JStr ''Summary generation failed, but paper metadata was retrieved.''
       \<and> notes_s (fallback paperMeta) = JArr [JStr ''Summary generation failed - please try again'']
       \<and> problems_solved (fallback paperMeta) = JArr []
       \<and> key_innovations (fallback paperMeta) = JArr []
       \<and> takeaways (fallback paperMeta) = JArr []
       \<and> benchmarks (fallback paperMeta) = JArr []
       \<and> resources (fallback paperMeta)
           = \<lparr> code = map JStr (codeLinks paperMeta), video = map JStr (videoLinks paperMeta),
               checkpoints = map JStr (modelLinks paperMeta) \<rparr>
       \<and> collaboration_type (fallback paperMeta)
           = JStr (collab_name (inferCollabType (authorsDetailed paperMeta)))"
proof -
  have "summarizeText (JSON_parse pf) paperMeta txt = fallback paperMeta"
    using assms(6) by (simp add: summarizeText_def)
  then have "snd (summarizeWithGemini pf apiKey paperUrl) = Inr (fallback paperMeta)"
    using assms(1-5) by (simp add: summarizeWithGemini_def Let_def)
  then show ?thesis
    by (simp add: fallback_def)
qed

text \<open>The model answers in prose to a reference that is no arXiv address.\<close>

theorem parse_failure_fallback_witness:
  "snd (summarizeWithGemini
          (mock_platform None (Some (success (gemini_reply ''I cannot summarize this paper.''))))
          ''secret'' ''https://web.archive.org/web/2/https://example.com/paper.html'')
     = Inr (fallback no_meta)
   \<and> one_liner (fallback no_meta)
       = JStr ''Summary generation failed, but paper metadata was retrieved.''
   \<and> notes_s (fallback no_meta) = JArr [JStr ''Summary generation failed - please try again'']
   \<and> collaboration_type (fallback no_meta) = JStr ''Unknown''"
proof -
  let ?res = "success (gemini_reply ''I cannot summarize this paper.'')"
  let ?pf = "mock_platform None (Some ?res)"
  let ?u = "''https://web.archive.org/web/2/https://example.com/paper.html''"
  have m: "fetchArxivMeta ?pf ?u = ([], Inr no_meta)"
    by code_simp
  have f: "fetch ?pf (gemini_request ''secret'' no_meta) = Some ?res"
    by (simp add: mock_platform_def gemini_request_def)
  have k: "ok ?res"
    by (simp add: success_def)
  have d: "JSON_parse ?pf (body ?res)
      = Some (JObj [(''candidates'', JArr [JObj [(''content'', JObj [(''parts'',
          JArr [JObj [(''text'', JStr ''I cannot summarize this paper.'')]])])]])])"
    by code_simp
  have t: "reply_text (JObj [(''candidates'', JArr [JObj [(''content'', JObj [(''parts'',
          JArr [JObj [(''text'', JStr ''I cannot summarize this paper.'')]])])]])])
      = JStr ''I cannot summarize this paper.''"
    by code_simp
  have b: "JSON_parse ?pf (extractJsonStr ''I cannot summarize this paper.'') = None"
    by code_simp
  have c: "JStr (collab_name (inferCollabType (authorsDetailed no_meta))) = JStr ''Unknown''"
    by code_simp
  from parse_failure_fallback [OF m f k d t b] c show ?thesis
    by simp
qed

text \<open>Outside the \<open>try\<close> block: a reply whose \<open>text\<close> is a value other than a string makes
  \<open>text.trim()\<close> throw, and the resolver fails with that \<open>TypeError\<close>.\<close>

lemma reply_text_not_string:
  assumes "fetchArxivMeta pf paperUrl = (sent, Inr paperMeta)"
    and "fetch pf (gemini_request apiKey paperMeta) = Some res" and "ok res"
    and "JSON_parse pf (body res) = Some data" and "\<forall>t. reply_text data \<noteq> JStr t"
  shows "snd (summarizeWithGemini pf apiKey paperUrl) = Inl TypeError"
  using assms
  by (cases "reply_text data") (simp_all add: summarizeWithGemini_def Let_def)




text \<open>
  Claim C9 at the reply \<open>{"authors": true}\<close>: the parse succeeds, \<open>total_authors\<close> is
  missing from the reply, \<open>parsed.authors\<close> is truthy and has no \<open>length\<close>, and the
  summary's \<open>total_authors\<close> is \<open>undefined\<close>.
\<close>

theorem total_authors_undefined:
  "total_authors
     (summarizeText JSON_parse_model no_meta (''{'' @ json_quote ''authors'' @ '': true}''))
     = JUndefined"
  by code_simp

text \<open>The other five fields of the invariant are set on both branches, whatever the reply,
  and \<open>total_authors\<close> is set on the branch of the \<open>catch\<close> block.\<close>

lemma or_else_defined: "b \<noteq> JUndefined \<Longrightarrow> or_else a b \<noteq> JUndefined"
  by (cases a) (auto simp: or_else_def)

lemma fallback_fields_present:
  "one_liner (fallback m) \<noteq> JUndefined \<and> problems_solved (fallback m) \<noteq> JUndefined
   \<and> key_innovations (fallback m) \<noteq> JUndefined \<and> collaboration_type (fallback m) \<noteq> JUndefined
   \<and> total_authors (fallback m) \<noteq> JUndefined \<and> takeaways (fallback m) \<noteq> JUndefined"
  by (simp add: fallback_def)

lemma fromParsed_fields_present:
  assumes "fromParsed m parsed = Some s"
  shows "one_liner s \<noteq> JUndefined \<and> problems_solved s \<noteq> JUndefined
   \<and> key_innovations s \<noteq> JUndefined \<and> collaboration_type s \<noteq> JUndefined
   \<and> takeaways s \<noteq> JUndefined"
  using assms
  by (auto simp: fromParsed_def Let_def or_else_defined split: option.splits)

lemma summary_fields_present:
  "one_liner (summarizeText P m txt) \<noteq> JUndefined
   \<and> problems_solved (summarizeText P m txt) \<noteq> JUndefined
   \<and> key_innovations (summarizeText P m txt) \<noteq> JUndefined
   \<and> collaboration_type (summarizeText P m txt) \<noteq> JUndefined
   \<and> takeaways (summarizeText P m txt) \<noteq> JUndefined"
proof (cases "P (extractJsonStr txt)")
  case None
  then show ?thesis
    using fallback_fields_present [of m] by (simp add: summarizeText_def)
next
  case (Some parsed)
  show ?thesis
  proof (cases "fromParsed m parsed")
    case None
    with Some show ?thesis
      using fallback_fields_present [of m] by (simp add: summarizeText_def)
  next
    case s: (Some s)
    with Some show ?thesis
      using fromParsed_fields_present [OF s] by (simp add: summarizeText_def)
  qed
qed

section \<open>Fenced replies\<close>

lemma includes_str_sublist: "includes_str n s \<longleftrightarrow> sublist n s"
  by (induction s) (auto simp: sublist_Cons_right)

lemma of_char_lower_char:
  "(of_char (lower_char c) :: nat)
     = (if (65 \<le> (of_char c :: nat) \<and> (of_char c :: nat) \<le> 90)
           \<or> (192 \<le> (of_char c :: nat) \<and> (of_char c :: nat) \<le> 222 \<and> (of_char c :: nat) \<noteq> 215)
        then of_char c + 32 else of_char c)"
  by (simp add: lower_char_def Let_def)

lemma lower_char_backquote: "lower_char c = CHR 0x60 \<longleftrightarrow> c = CHR 0x60"
proof
  assume "lower_char c = CHR 0x60"
  then have "(of_char (lower_char c) :: nat) = 96"
    by simp
  then have "(of_char c :: nat) = 96"
    by (simp add: of_char_lower_char split: if_splits)
  then have "(of_char c :: nat) = of_char (CHR 0x60)"
    by simp
  then show "c = CHR 0x60"
    by (simp only: of_char_eq_iff)
next
  assume "c = CHR 0x60"
  then show "lower_char c = CHR 0x60"
    by (simp add: lower_char_def)
qed

lemma lower_char_backquote': "CHR 0x60 = lower_char c \<longleftrightarrow> CHR 0x60 = c"
  using lower_char_backquote [of c] by auto

lemma space_not_backquote: "js_space c \<Longrightarrow> c \<noteq> CHR 0x60"
  by (auto simp: js_space_def)

lemma lower_char_space: "js_space c \<Longrightarrow> lower_char c = c"
  by (auto simp: js_space_def lower_char_def)

lemma prefix_fence_lower: "prefix ''```'' (toLowerCase s) \<longleftrightarrow> prefix ''```'' s"
proof (cases s)
  case Nil
  then show ?thesis by (simp add: toLowerCase_def)
next
  case s1: (Cons a s')
  show ?thesis
  proof (cases s')
    case Nil
    with s1 show ?thesis by (simp add: toLowerCase_def lower_char_backquote')
  next
    case s2: (Cons b s'')
    show ?thesis
    proof (cases s'')
      case Nil
      with s1 s2 show ?thesis by (simp add: toLowerCase_def lower_char_backquote')
    next
      case (Cons d s''')
      with s1 s2 show ?thesis by (simp add: toLowerCase_def lower_char_backquote')
    qed
  qed
qed

lemma opener_prefix:
  assumes "prefix ''```'' opener" and "prefix opener (toLowerCase s)"
  shows "prefix ''```'' s"
proof -
  from assms have "prefix ''```'' (toLowerCase s)"
    by (rule prefix_order.trans)
  then show ?thesis
    by (simp only: prefix_fence_lower)
qed

text \<open>A text that holds no fence matches neither pattern.\<close>

lemma match_fence_no_fence:
  assumes "prefix ''```'' opener" and "\<not> sublist ''```'' s"
  shows "match_fence opener s = None"
  using assms(2)
proof (induction s)
  case Nil
  then show ?case by simp
next
  case (Cons c cs)
  from Cons.prems have "\<not> prefix ''```'' (c # cs)" and "\<not> sublist ''```'' cs"
    by (simp_all add: sublist_Cons_right)
  then show ?case
    using opener_prefix [OF assms(1), of "c # cs"] Cons.IH by auto
qed

subsection \<open>Trimming\<close>

lemma trim_pad:
  assumes "list_all js_space a" and "list_all js_space b"
  shows "trim (a @ s @ b) = trim s"
proof -
  have a: "dropWhile js_space (a @ s @ b) = dropWhile js_space (s @ b)"
    using assms(1) by (simp add: dropWhile_append2 list_all_iff)
  show ?thesis
  proof (cases "list_all js_space s")
    case True
    then have e: "dropWhile js_space (s @ b) = []" "dropWhile js_space s = []"
      using assms(2) by (auto simp: list_all_iff)
    have "trim (a @ s @ b) = []"
      unfolding trim_def a e by simp
    moreover have "trim s = []"
      unfolding trim_def e by simp
    ultimately show ?thesis
      by simp
  next
    case False
    then obtain x where "x \<in> set s" and "\<not> js_space x"
      by (auto simp: list_all_iff)
    then have "dropWhile js_space (s @ b) = dropWhile js_space s @ b"
      by (rule dropWhile_append1)
    moreover have "dropWhile js_space (rev b @ z) = dropWhile js_space z" for z
      using assms(2) by (intro dropWhile_append2) (auto simp: list_all_iff)
    ultimately show ?thesis
      by (simp add: trim_def a)
  qed
qed

lemma trim_sublist: "sublist (trim s) s"
proof -
  have "suffix (dropWhile js_space (rev (dropWhile js_space s))) (rev (dropWhile js_space s))"
    by (rule suffix_dropWhile)
  then have "prefix (trim s) (dropWhile js_space s)"
    unfolding trim_def by (metis rev_rev_ident suffix_to_prefix)
  moreover have "suffix (dropWhile js_space s) s"
    by (rule suffix_dropWhile)
  ultimately show ?thesis
    unfolding sublist_altdef' by blast
qed

lemma trim_idem: "trim (trim s) = trim s"
proof -
  let ?u = "dropWhile js_space (rev (dropWhile js_space s))"
  have h: "?u = [] \<or> \<not> js_space (hd ?u)"
    by (metis hd_dropWhile)
  have l: "dropWhile js_space s = [] \<or> \<not> js_space (hd (dropWhile js_space s))"
    by (metis hd_dropWhile)
  show ?thesis
  proof (cases "?u = []")
    case True
    have e: "trim s = []"
      unfolding trim_def True by simp
    have n: "trim [] = []"
      by (simp add: trim_def)
    show ?thesis
      unfolding e n by (rule refl)
  next
    case False
    with h have nu: "\<not> js_space (hd ?u)" by blast
    from False have ne: "dropWhile js_space s \<noteq> []"
      by (metis dropWhile.simps(1) rev.simps(1))
    with l have nl: "\<not> js_space (hd (dropWhile js_space s))" by blast
    have "suffix ?u (rev (dropWhile js_space s))"
      by (rule suffix_dropWhile)
    then obtain p where p: "rev (dropWhile js_space s) = p @ ?u"
      by (auto simp: suffix_def)
    then have "dropWhile js_space s = rev ?u @ rev p"
      by (metis rev_append rev_rev_ident)
    with nl False have "\<not> js_space (hd (rev ?u))"
      by (metis hd_append2 rev_is_Nil_conv)
    then have 1: "dropWhile js_space (rev ?u) = rev ?u"
      using False by (cases "rev ?u") auto
    have 2: "dropWhile js_space ?u = ?u"
      using nu False by (cases ?u) auto
    show ?thesis
      unfolding trim_def by (simp only: 1 rev_rev_ident 2)
  qed
qed
subsection \<open>The closing fence\<close>

lemma dropWhile_space_fence:
  "dropWhile js_space (a @ ''```'') = dropWhile js_space a @ ''```''"
  by (induction a) (auto simp: js_space_def)

lemma rstrip_Cons:
  assumes "\<not> list_all js_space (c # y)"
  shows "rev (dropWhile js_space (rev (c # y))) = c # rev (dropWhile js_space (rev y))"
proof (cases "list_all js_space y")
  case True
  with assms have c: "\<not> js_space c" by simp
  from True have "dropWhile js_space (rev y @ [c]) = dropWhile js_space [c]"
    by (intro dropWhile_append2) (auto simp: list_all_iff)
  moreover from True have "dropWhile js_space (rev y) = []"
    by (auto simp: list_all_iff)
  ultimately show ?thesis
    using c by simp
next
  case False
  then obtain x where "x \<in> set (rev y)" and "\<not> js_space x"
    by (auto simp: list_all_iff)
  then have "dropWhile js_space (rev y @ [c]) = dropWhile js_space (rev y) @ [c]"
    by (rule dropWhile_append1)
  then show ?thesis
    by simp
qed

text \<open>
  In what follows \<open>y\<close> is the text between the opening and the closing fence. The
  hypothesis on it says that no fence begins inside it, the closing fence being put after
  it.
\<close>

lemma lazy_closing:
  assumes "\<forall>t. suffix t y \<and> t \<noteq> [] \<longrightarrow> \<not> prefix ''```'' (t @ ''```'')"
  shows "lazy_to_fence (y @ ''```'') = Some (rev (dropWhile js_space (rev y)))"
  using assms
proof (induction y)
  case Nil
  show ?case by (simp add: js_space_def)
next
  case (Cons c y)
  have ih: "lazy_to_fence (y @ ''```'') = Some (rev (dropWhile js_space (rev y)))"
  proof (rule Cons.IH, intro allI impI)
    fix t assume "suffix t y \<and> t \<noteq> []"
    then have "suffix t (c # y) \<and> t \<noteq> []"
      by (simp add: suffix_ConsI)
    with Cons.prems show "\<not> prefix ''```'' (t @ ''```'')" by blast
  qed
  have dw: "dropWhile js_space (c # y @ ''```'') = dropWhile js_space (c # y) @ ''```''"
    using dropWhile_space_fence [of "c # y"] by simp
  show ?case
  proof (cases "dropWhile js_space (c # y) = []")
    case True
    then have all: "list_all js_space (c # y)"
      unfolding dropWhile_eq_Nil_conv list_all_iff .
    then have "dropWhile js_space (rev (c # y)) = []"
      by (auto simp: list_all_iff)
    moreover have "lazy_to_fence ((c # y) @ ''```'') = Some []"
      using dw True by simp
    ultimately show ?thesis
      by simp
  next
    case False
    have "suffix (dropWhile js_space (c # y)) (c # y)"
      by (rule suffix_dropWhile)
    with False Cons.prems
    have "\<not> prefix ''```'' (dropWhile js_space (c # y) @ ''```'')"
      by blast
    then have "lazy_to_fence ((c # y) @ ''```'') = map_option ((#) c) (lazy_to_fence (y @ ''```''))"
      using dw by simp
    moreover from False have "\<not> list_all js_space (c # y)"
      unfolding dropWhile_eq_Nil_conv list_all_iff .
    ultimately show ?thesis
      using ih rstrip_Cons [of c y] by simp
  qed
qed

lemma json_opener_inside:
  assumes "\<forall>t. suffix t y \<and> t \<noteq> [] \<longrightarrow> \<not> prefix ''```'' (t @ ''```'')"
  shows "match_fence ''```json'' (y @ ''```'') = None"
  using assms
proof (induction y)
  case Nil
  show ?case by code_simp
next
  case (Cons c y)
  have ih: "match_fence ''```json'' (y @ ''```'') = None"
  proof (rule Cons.IH, intro allI impI)
    fix t assume "suffix t y \<and> t \<noteq> []"
    then have "suffix t (c # y) \<and> t \<noteq> []"
      by (simp add: suffix_ConsI)
    with Cons.prems show "\<not> prefix ''```'' (t @ ''```'')" by blast
  qed
  from Cons.prems have "\<not> prefix ''```'' ((c # y) @ ''```'')"
    by blast
  then have "\<not> prefix ''```json'' (toLowerCase ((c # y) @ ''```''))"
    using opener_prefix [of "''```json''" "(c # y) @ ''```''"] by auto
  then show ?case
    using ih by simp
qed

lemma match_at_opener:
  assumes "toLowerCase p = opener" and "p \<noteq> []"
    and "\<forall>t. suffix t y \<and> t \<noteq> [] \<longrightarrow> \<not> prefix ''```'' (t @ ''```'')"
  shows "match_fence opener (p @ y @ ''```'') = Some (trim y)"
proof -
  obtain c cs where p: "p = c # cs"
    using assms(2) by (cases p) auto
  have len: "length opener = length p"
    using assms(1) by (auto simp: toLowerCase_def)
  have pre: "prefix opener (toLowerCase (p @ y @ ''```''))"
    using assms(1) by (simp add: toLowerCase_def)
  have "\<forall>t. suffix t (dropWhile js_space y) \<and> t \<noteq> [] \<longrightarrow> \<not> prefix ''```'' (t @ ''```'')"
    using assms(3) suffix_dropWhile [of js_space y] suffix_order.trans by blast
  from lazy_closing [OF this]
  have "lazy_to_fence (dropWhile js_space (y @ ''```'')) = Some (trim y)"
    by (simp add: dropWhile_space_fence trim_def)
  then have "(case lazy_to_fence (dropWhile js_space (drop (length opener) (p @ y @ ''```''))) of
               Some g \<Rightarrow> Some g | None \<Rightarrow> match_fence opener (cs @ y @ ''```'')) = Some (trim y)"
    by (simp add: len)
  then show ?thesis
    using pre unfolding p by simp
qed
subsection \<open>The text between the fences\<close>

lemma suffix_hd_in_set: "suffix t w \<Longrightarrow> t \<noteq> [] \<Longrightarrow> hd t \<in> set w"
  by (metis hd_in_set set_mono_suffix subsetD)

lemma suffix_last: "suffix t j \<Longrightarrow> t \<noteq> [] \<Longrightarrow> last j = last t"
  by (auto simp: suffix_def)

lemma no_inner_fence:
  assumes "\<not> sublist ''```'' j" and "j \<noteq> [] \<longrightarrow> last j \<noteq> CHR 0x60"
    and "list_all js_space w1" and "list_all js_space w2"
  shows "\<forall>t. suffix t (w1 @ j @ w2) \<and> t \<noteq> [] \<longrightarrow> \<not> prefix ''```'' (t @ ''```'')"
proof (intro allI impI notI)
  fix t
  assume t: "suffix t (w1 @ j @ w2) \<and> t \<noteq> []" and f: "prefix ''```'' (t @ ''```'')"
  from t f have hd: "hd t = CHR 0x60"
    by (cases t) auto
  have nospace: "\<not> js_space (hd t)"
    using hd by (simp add: js_space_def)
  have "suffix t w2
      \<or> (\<exists>j'. t = j' @ w2 \<and> suffix j' j \<and> j' \<noteq> [])
      \<or> (\<exists>t'. t = t' @ j @ w2 \<and> suffix t' w1 \<and> t' \<noteq> [])"
  proof -
    from t have "suffix t (j @ w2) \<or> (\<exists>t'. t = t' @ j @ w2 \<and> suffix t' w1)"
      by (simp add: suffix_append)
    moreover have "suffix t (j @ w2) \<Longrightarrow> suffix t w2 \<or> (\<exists>j'. t = j' @ w2 \<and> suffix j' j \<and> j' \<noteq> [])"
    proof -
      assume "suffix t (j @ w2)"
      then have "suffix t w2 \<or> (\<exists>j'. t = j' @ w2 \<and> suffix j' j)"
        by (simp add: suffix_append)
      then show ?thesis
      proof
        assume "suffix t w2"
        then show ?thesis by simp
      next
        assume "\<exists>j'. t = j' @ w2 \<and> suffix j' j"
        then obtain j' where j': "t = j' @ w2" "suffix j' j" by blast
        show ?thesis
        proof (cases "j' = []")
          case True
          with j' show ?thesis by simp
        next
          case False
          with j' show ?thesis by blast
        qed
      qed
    qed
    moreover have "(\<exists>t'. t = t' @ j @ w2 \<and> suffix t' w1) \<Longrightarrow> suffix t (j @ w2)
        \<or> (\<exists>t'. t = t' @ j @ w2 \<and> suffix t' w1 \<and> t' \<noteq> [])"
    proof -
      assume "\<exists>t'. t = t' @ j @ w2 \<and> suffix t' w1"
      then obtain t' where t': "t = t' @ j @ w2" "suffix t' w1" by blast
      show ?thesis
      proof (cases "t' = []")
        case True
        with t' show ?thesis by simp
      next
        case False
        with t' show ?thesis by blast
      qed
    qed
    ultimately show ?thesis by blast
  qed
  then consider (w2) "suffix t w2"
    | (j) j' where "t = j' @ w2" "suffix j' j" "j' \<noteq> []"
    | (w1) t' where "t = t' @ j @ w2" "suffix t' w1" "t' \<noteq> []"
    by blast
  then show False
  proof cases
    case w2
    with t have "hd t \<in> set w2" by (simp add: suffix_hd_in_set)
    with assms(4) nospace show False by (simp add: list_all_iff)
  next
    case w1
    then have "hd t \<in> set w1" by (simp add: suffix_hd_in_set)
    with assms(3) nospace show False by (simp add: list_all_iff)
  next
    case j
    then have jne: "j \<noteq> []" and last: "last j = last j'"
      by (auto simp: suffix_last)
    show False
    proof (cases j')
      case Nil
      with j show False by simp
    next
      case c1: (Cons a r1)
      show False
      proof (cases r1)
        case Nil
        with c1 j f have "last j' = CHR 0x60" by auto
        with assms(2) jne last show False by simp
      next
        case c2: (Cons b r2)
        show False
        proof (cases r2)
          case Nil
          with c1 c2 j f have "last j' = CHR 0x60" by auto
          with assms(2) jne last show False by simp
        next
          case (Cons d r3)
          with c1 c2 j f have "prefix ''```'' j'" by auto
          then have "sublist ''```'' j'" by (rule prefix_imp_sublist)
          moreover have "sublist j' j" using j(2) by (rule suffix_imp_sublist)
          ultimately have "sublist ''```'' j" by (rule sublist_order.order.trans)
          with assms(1) show False by simp
        qed
      qed
    qed
  qed
qed

lemma lower_char_j: "lower_char c = CHR ''j'' \<longleftrightarrow> c = CHR ''j'' \<or> c = CHR ''J''"
proof
  assume "lower_char c = CHR ''j''"
  then have "(of_char (lower_char c) :: nat) = 106"
    by simp
  then have "(of_char c :: nat) = 106 \<or> (of_char c :: nat) = 74"
    by (simp add: of_char_lower_char split: if_splits)
  then have "(of_char c :: nat) = of_char (CHR ''j'') \<or> (of_char c :: nat) = of_char (CHR ''J'')"
    by simp
  then show "c = CHR ''j'' \<or> c = CHR ''J''"
    by (simp only: of_char_eq_iff)
next
  have "lower_char (CHR ''j'') = CHR ''j''" and "lower_char (CHR ''J'') = CHR ''j''"
    by code_simp+
  moreover assume "c = CHR ''j'' \<or> c = CHR ''J''"
  ultimately show "lower_char c = CHR ''j''"
    by auto
qed

text \<open>Without a language tag the first pattern finds nothing.\<close>

lemma json_opener_fails:
  assumes "\<forall>t. suffix t y \<and> t \<noteq> [] \<longrightarrow> \<not> prefix ''```'' (t @ ''```'')"
    and "y \<noteq> [] \<longrightarrow> hd y \<notin> {CHR 0x60, CHR ''j'', CHR ''J''}"
  shows "match_fence ''```json'' (''```'' @ y @ ''```'') = None"
proof (cases y)
  case Nil
  show ?thesis unfolding Nil by code_simp
next
  case (Cons c r)
  with assms(2) have c: "c \<noteq> CHR 0x60" "lower_char c \<noteq> CHR ''j''"
    by (auto simp: lower_char_j)
  have b: "lower_char (CHR 0x60) = CHR 0x60"
    by (simp add: lower_char_backquote)
  have "match_fence ''```json'' (y @ ''```'') = None"
    using assms(1) by (rule json_opener_inside)
  then show ?thesis
    using c unfolding Cons
    by (simp add: toLowerCase_def b lower_char_backquote')
qed

lemma first_char:
  assumes "list_all js_space w1" and "list_all js_space w2"
    and "j \<noteq> [] \<longrightarrow> hd j \<notin> {CHR 0x60, CHR ''j'', CHR ''J''}"
  shows "w1 @ j @ w2 \<noteq> [] \<longrightarrow> hd (w1 @ j @ w2) \<notin> {CHR 0x60, CHR ''j'', CHR ''J''}"
proof -
  have sp: "js_space c \<Longrightarrow> c \<notin> {CHR 0x60, CHR ''j'', CHR ''J''}" for c
    by (auto simp: js_space_def)
  show ?thesis
  proof (cases w1)
    case (Cons a r)
    with assms(1) sp [of a] show ?thesis by simp
  next
    case n1: Nil
    show ?thesis
    proof (cases j)
      case (Cons a r)
      with n1 assms(3) show ?thesis by simp
    next
      case n2: Nil
      show ?thesis
      proof (cases w2)
        case Nil
        with n1 n2 show ?thesis by simp
      next
        case (Cons a r)
        with n1 n2 assms(2) sp [of a] show ?thesis by simp
      qed
    qed
  qed
qed

lemma trim_fixed:
  assumes "m \<noteq> []" and "\<not> js_space (hd m)" and "\<not> js_space (last m)"
  shows "trim m = m"
proof -
  have 1: "dropWhile js_space m = m"
    using assms(1,2) by (cases m) auto
  obtain x xs where r: "rev m = x # xs"
    using assms(1) by (cases "rev m") auto
  then have "x = last m"
    using assms(1) by (metis hd_rev list.sel(1))
  with assms(3) have nx: "\<not> js_space x"
    by simp
  have 2: "dropWhile js_space (rev m) = rev m"
    unfolding r using nx by simp
  show ?thesis
    unfolding trim_def 1 2 by simp
qed

lemma plain_text_unchanged:
  assumes "\<not> includes_str ''```'' j"
  shows "extractJsonStr j = trim j"
proof -
  have "sublist (trim j) j"
    by (rule trim_sublist)
  with assms have n: "\<not> sublist ''```'' (trim j)"
    unfolding includes_str_sublist using sublist_order.order.trans by blast
  have "match_fence ''```json'' (trim j) = None"
    by (rule match_fence_no_fence [OF _ n]) simp
  moreover have "match_fence ''```'' (trim j) = None"
    by (rule match_fence_no_fence [OF _ n]) simp
  ultimately show ?thesis
    by (simp add: extractJsonStr_def)
qed

lemma fenced_text:
  assumes "\<not> includes_str ''```'' j" and "j \<noteq> [] \<longrightarrow> last j \<noteq> CHR 0x60"
    and "toLowerCase tag = ''json''
         \<or> (tag = [] \<and> (j \<noteq> [] \<longrightarrow> hd j \<notin> {CHR 0x60, CHR ''j'', CHR ''J''}))"
    and "list_all js_space w1" and "list_all js_space w2"
    and "list_all js_space pre" and "list_all js_space post"
  shows "extractJsonStr (pre @ ''```'' @ tag @ w1 @ j @ w2 @ ''```'' @ post) = trim j"
proof -
  define y where "y = w1 @ j @ w2"
  define m where "m = ''```'' @ tag @ y @ ''```''"
  have nf: "\<forall>t. suffix t y \<and> t \<noteq> [] \<longrightarrow> \<not> prefix ''```'' (t @ ''```'')"
    unfolding y_def using assms(1,2,4,5) unfolding includes_str_sublist by (rule no_inner_fence)
  have "trim (pre @ m @ post) = trim m"
    using assms(6,7) by (rule trim_pad)
  moreover have "trim m = m"
    by (rule trim_fixed) (simp_all add: m_def js_space_def)
  ultimately have t: "trim (pre @ ''```'' @ tag @ w1 @ j @ w2 @ ''```'' @ post) = m"
    by (simp add: m_def y_def)
  have yj: "trim (trim y) = trim j"
    unfolding y_def using trim_pad [OF assms(4,5), of j] by (simp add: trim_idem)
  have b: "lower_char (CHR 0x60) = CHR 0x60"
    by (simp add: lower_char_backquote)
  have e: "extractJsonStr (pre @ ''```'' @ tag @ w1 @ j @ w2 @ ''```'' @ post)
      = (case (case match_fence ''```json'' m of Some g \<Rightarrow> Some g
                | None \<Rightarrow> match_fence ''```'' m) of
           Some g \<Rightarrow> trim g | None \<Rightarrow> m)"
    unfolding extractJsonStr_def t Let_def by (rule refl)
  from assms(3) show ?thesis
  proof
    assume tag: "toLowerCase tag = ''json''"
    have "toLowerCase (''```'' @ tag) = ''```json''"
      using tag by (simp add: toLowerCase_def b)
    from match_at_opener [OF this _ nf]
    have "match_fence ''```json'' ((''```'' @ tag) @ y @ ''```'') = Some (trim y)"
      by simp
    then have "match_fence ''```json'' m = Some (trim y)"
      by (simp add: m_def)
    then show ?thesis
      by (simp only: e option.case yj)
  next
    assume "tag = [] \<and> (j \<noteq> [] \<longrightarrow> hd j \<notin> {CHR 0x60, CHR ''j'', CHR ''J''})"
    then have tag: "tag = []" and h: "j \<noteq> [] \<longrightarrow> hd j \<notin> {CHR 0x60, CHR ''j'', CHR ''J''}"
      by simp_all
    have f: "y \<noteq> [] \<longrightarrow> hd y \<notin> {CHR 0x60, CHR ''j'', CHR ''J''}"
      unfolding y_def using assms(4,5) h by (rule first_char)
    have m: "m = ''```'' @ y @ ''```''"
      by (simp add: m_def tag)
    have 1: "match_fence ''```json'' m = None"
      unfolding m using nf f by (rule json_opener_fails)
    have "toLowerCase ''```'' = ''```''"
      by (simp add: toLowerCase_def b)
    from match_at_opener [OF this _ nf]
    have 2: "match_fence ''```'' m = Some (trim y)"
      unfolding m by simp
    show ?thesis
      by (simp only: e 1 2 option.case yj)
  qed
qed
text \<open>
  Claim C8, as the code has it. Let the reply be a fenced block, with white space allowed
  before and after it and after each fence, whose language tag is \<open>json\<close> in any case
  of the letters or is absent, and let the text \<open>j\<close> inside hold no three backquotes in a
  row and not end with a backquote (and, when there is no tag, not begin with a
  backquote or the letter \<open>j\<close>; no JSON text does either). Then the text handed to the
  parser is \<open>j\<close> trimmed, as it is for the reply \<open>j\<close> without the fence, and the summary
  is the same for both replies.
\<close>

theorem fenced_reply_same_summary:
  assumes "\<not> includes_str ''```'' j" and "j \<noteq> [] \<longrightarrow> last j \<noteq> CHR 0x60"
    and "toLowerCase tag = ''json''
         \<or> (tag = [] \<and> (j \<noteq> [] \<longrightarrow> hd j \<notin> {CHR 0x60, CHR ''j'', CHR ''J''}))"
    and "list_all js_space w1" and "list_all js_space w2"
    and "list_all js_space pre" and "list_all js_space post"
  shows "extractJsonStr (pre @ ''```'' @ tag @ w1 @ j @ w2 @ ''```'' @ post) = trim j
       \<and> extractJsonStr j = trim j
       \<and> summarizeText P paperMeta (pre @ ''```'' @ tag @ w1 @ j @ w2 @ ''```'' @ post)
           = summarizeText P paperMeta j"
proof -
  have f: "extractJsonStr (pre @ ''```'' @ tag @ w1 @ j @ w2 @ ''```'' @ post) = trim j"
    using assms by (rule fenced_text)
  have u: "extractJsonStr j = trim j"
    using assms(1) by (rule plain_text_unchanged)
  have "summarizeText P paperMeta (pre @ ''```'' @ tag @ w1 @ j @ w2 @ ''```'' @ post)
      = summarizeText P paperMeta j"
    unfolding summarizeText_def f u by (rule refl)
  with f u show ?thesis by blast
qed

text \<open>A reply in a \<open>```json\<close> block and one in a bare block, each with a line break after
  the opening fence and before the closing one.\<close>

theorem fenced_reply_same_summary_witness:
  "summarizeText JSON_parse_model no_meta
     (''```json'' @ [CHR 0x0A] @ (''{'' @ json_quote ''one_liner'' @ '':'' @ json_quote ''Fast `attention`'' @ ''}'')
        @ [CHR 0x0A] @ ''```'')
     = summarizeText JSON_parse_model no_meta
         (''{'' @ json_quote ''one_liner'' @ '':'' @ json_quote ''Fast `attention`'' @ ''}'')
   \<and> summarizeText JSON_parse_model no_meta
       (''```'' @ [CHR 0x0A] @ (''{'' @ json_quote ''one_liner'' @ '':'' @ json_quote ''Fast `attention`'' @ ''}'')
          @ [CHR 0x0A] @ ''```'')
     = summarizeText JSON_parse_model no_meta
         (''{'' @ json_quote ''one_liner'' @ '':'' @ json_quote ''Fast `attention`'' @ ''}'')
   \<and> one_liner (summarizeText JSON_parse_model no_meta
         (''{'' @ json_quote ''one_liner'' @ '':'' @ json_quote ''Fast `attention`'' @ ''}''))
     = JStr ''Fast `attention`''"
proof -
  let ?j = "''{'' @ json_quote ''one_liner'' @ '':'' @ json_quote ''Fast `attention`'' @ ''}''"
  have h1: "\<not> includes_str ''```'' ?j"
    by code_simp
  have h2: "?j \<noteq> [] \<longrightarrow> last ?j \<noteq> CHR 0x60"
    by code_simp
  have h3: "toLowerCase ''json'' = ''json''
      \<or> (''json'' = [] \<and> (?j \<noteq> [] \<longrightarrow> hd ?j \<notin> {CHR 0x60, CHR ''j'', CHR ''J''}))"
    by code_simp
  have h3': "toLowerCase [] = ''json''
      \<or> ([] = [] \<and> (?j \<noteq> [] \<longrightarrow> hd ?j \<notin> {CHR 0x60, CHR ''j'', CHR ''J''}))"
    by code_simp
  have w: "list_all js_space [CHR 0x0A]" "list_all js_space []"
    by code_simp+
  have 1: "summarizeText JSON_parse_model no_meta
             ([] @ ''```'' @ ''json'' @ [CHR 0x0A] @ ?j @ [CHR 0x0A] @ ''```'' @ [])
           = summarizeText JSON_parse_model no_meta ?j"
    using fenced_reply_same_summary [OF h1 h2 h3 w(1) w(1) w(2) w(2)] by blast
  have 2: "summarizeText JSON_parse_model no_meta
             ([] @ ''```'' @ [] @ [CHR 0x0A] @ ?j @ [CHR 0x0A] @ ''```'' @ [])
           = summarizeText JSON_parse_model no_meta ?j"
    using fenced_reply_same_summary [OF h1 h2 h3' w(1) w(1) w(2) w(2)] by blast
  have 3: "one_liner (summarizeText JSON_parse_model no_meta ?j) = JStr ''Fast `attention`''"
    by code_simp
  from 1 2 3 show ?thesis
    by (simp only: append_Nil append_Nil2 append_assoc) simp
qed

text \<open>
  A block with another language tag is handed to the parser with its tag, and a block
  whose JSON holds a fence in a string is cut at that fence; both replies end in the
  summary of the \<open>catch\<close> block, unlike the JSON text alone.
\<close>

theorem fenced_reply_same_summary_counterexample:
  "extractJsonStr (''```js'' @ [CHR 0x0A] @ ''{}'' @ [CHR 0x0A] @ ''```'') = ''js'' @ [CHR 0x0A] @ ''{}''
   \<and> summarizeText JSON_parse_model no_meta (''```js'' @ [CHR 0x0A] @ ''{}'' @ [CHR 0x0A] @ ''```'')
       \<noteq> summarizeText JSON_parse_model no_meta ''{}''
   \<and> summarizeText JSON_parse_model no_meta
         (''```json'' @ [CHR 0x0A] @ (''{'' @ json_quote ''one_liner'' @ '':'' @ json_quote ''```'' @ ''}'')
            @ [CHR 0x0A] @ ''```'')
       \<noteq> summarizeText JSON_parse_model no_meta
           (''{'' @ json_quote ''one_liner'' @ '':'' @ json_quote ''```'' @ ''}'')"
  by code_simp

end
